theory Spec2Isabelle
  imports Main "HOL-Library.Word"
begin

section \<open>JavaScript string primitives used by ethereum.js\<close>

text \<open>
  JavaScript strings are modelled as \<open>string\<close> (lists of characters).
  \<open>s.split(sep)\<close> with a one-character separator never returns the empty array:
  the empty string splits into one empty label, and every separator starts a new label.
\<close>

fun js_split :: "char \<Rightarrow> string \<Rightarrow> string list" where
  "js_split sep [] = [[]]"
| "js_split sep (c # cs) =
     (if c = sep then [] # js_split sep cs
      else (case js_split sep cs of
              [] \<Rightarrow> [[c]]
            | l # ls \<Rightarrow> (c # l) # ls))"

text \<open>\<open>labels.join(sep)\<close>.\<close>

fun js_join :: "char \<Rightarrow> string list \<Rightarrow> string" where
  "js_join sep [] = []"
| "js_join sep [l] = l"
| "js_join sep (l # m # ls) = l @ sep # js_join sep (m # ls)"

text \<open>\<open>xs.slice(-n)\<close>: the last \<open>n\<close> elements, all of them when there are fewer.\<close>

definition js_slice_last :: "nat \<Rightarrow> 'a list \<Rightarrow> 'a list" where
  "js_slice_last n xs = drop (length xs - n) xs"

text \<open>
  \<open>n.toString()\<close> of a non-negative integer: its decimal digits, most significant
  first, \<open>0\<close> for zero.
\<close>

definition digit_char :: "nat \<Rightarrow> char" where
  "digit_char d = char_of (48 + d)"

fun toString :: "nat \<Rightarrow> string" where
  "toString n = (if n < 10 then [digit_char n] else toString (n div 10) @ [digit_char (n mod 10)])"

declare toString.simps [simp del]

section \<open>The helpers of the bns library\<close>

text \<open>
  Modelled from the spec: \<open>util.trimFQDN\<close> and \<open>util.fqdn\<close> belong to the bns
  library, which is not part of the sources. The specification describes them as stripping
  a trailing root label and as producing the fully-qualified form of a name: a name is
  fully qualified when it ends with a dot; \<open>trimFQDN\<close> removes that one dot,
  \<open>fqdn\<close> appends it when it is missing.
\<close>

definition isFQDN :: "string \<Rightarrow> bool" where
  "isFQDN name = (name \<noteq> [] \<and> last name = CHR ''.'')"

definition trimFQDN :: "string \<Rightarrow> string" where
  "trimFQDN name = (if isFQDN name then butlast name else name)"

definition fqdn :: "string \<Rightarrow> string" where
  "fqdn name = (if isFQDN name then name else name @ ''.'')"

section \<open>Node derivation\<close>

text \<open>
  \<open>Ethereum.toNode\<close>: the labels are those of the trimmed name; with more than one
  label the last two are joined, otherwise \<open>node\<close> keeps its initial value, the name
  as it was passed in.
\<close>

definition toNode :: "string \<Rightarrow> string" where
  "toNode name =
     (let node = name;
          labels = js_split CHR ''.'' (trimFQDN name)
      in if length labels > 1 then js_join CHR ''.'' (js_slice_last 2 labels) else node)"

section \<open>The bounded store\<close>

text \<open>
  Modelled from the spec: the store of the blru library is not part of the sources. The
  specification describes it as a capacity-bounded key-value store with
  least-recently-used eviction. The entries are kept most recently used first; a
  successful \<open>get\<close> and every \<open>set\<close> move the entry to the front, and a \<open>set\<close>
  drops the entries beyond the capacity from the far end. A store of capacity zero keeps
  nothing.
\<close>

record ('k, 'v) lru =
  capacity :: nat
  items :: "('k \<times> 'v) list"

definition lru_new :: "nat \<Rightarrow> ('k, 'v) lru" where
  "lru_new size' = \<lparr>capacity = size', items = []\<rparr>"

definition lru_touch :: "'k \<Rightarrow> 'v \<Rightarrow> ('k \<times> 'v) list \<Rightarrow> ('k \<times> 'v) list" where
  "lru_touch k v xs = (k, v) # filter (\<lambda>p. fst p \<noteq> k) xs"

definition lru_set :: "'k \<Rightarrow> 'v \<Rightarrow> ('k, 'v) lru \<Rightarrow> ('k, 'v) lru" where
  "lru_set k v c =
     (if capacity c = 0 then c
      else c\<lparr>items := take (capacity c) (lru_touch k v (items c))\<rparr>)"

definition lru_get :: "'k \<Rightarrow> ('k, 'v) lru \<Rightarrow> 'v option \<times> ('k, 'v) lru" where
  "lru_get k c =
     (case map_of (items c) k of
        None \<Rightarrow> (None, c)
      | Some v \<Rightarrow> (Some v, c\<lparr>items := lru_touch k v (items c)\<rparr>))"

definition lru_reset :: "('k, 'v) lru \<Rightarrow> ('k, 'v) lru" where
  "lru_reset c = c\<lparr>items := []\<rparr>"

text \<open>What the store physically holds under a key, without touching it.\<close>

definition lru_peek :: "('k, 'v) lru \<Rightarrow> 'k \<Rightarrow> 'v option" where
  "lru_peek c k = map_of (items c) k"

section \<open>EthereumCache\<close>

text \<open>Times are milliseconds, as \<open>Date.now()\<close> returns them.\<close>

definition CACHE_TTL :: int where
  "CACHE_TTL = 30 * 60 * 1000"

definition CACHE_TAGS_DNS :: nat where
  "CACHE_TAGS_DNS = 0"

definition CACHE_TAGS_RESOLVER :: nat where
  "CACHE_TAGS_RESOLVER = 1"

text \<open>
  A resolver or registry handle is an \<open>ethers.Contract\<close>; the interface description and
  the provider are the same for all of them, so the handle is its address.
\<close>

datatype contract = Contract (address: string)

text \<open>
  The objects stored are \<open>{time, record}\<close> and \<open>{time, resolver}\<close>; a property an
  object does not have reads as \<open>undefined\<close>, here \<open>None\<close>.
\<close>

record cache_item =
  item_time :: int
  item_record :: "string option"
  item_resolver :: "contract option"

type_synonym ethereum_cache = "(string, cache_item) lru"

definition EthereumCache :: "nat \<Rightarrow> ethereum_cache" where
  "EthereumCache size' = lru_new size'"

definition toDnsKey :: "string \<Rightarrow> nat \<Rightarrow> string \<Rightarrow> string" where
  "toDnsKey name type resolverAddress =
     toString CACHE_TAGS_DNS @ '';'' @ name @ '';'' @ toString type @ '';'' @ resolverAddress"

definition toResolverKey :: "string \<Rightarrow> string \<Rightarrow> string" where
  "toResolverKey node registryAddress =
     toString CACHE_TAGS_RESOLVER @ '';'' @ node @ '';'' @ registryAddress"

text \<open>
  \<open>!record\<close> for a value that is a string, \<open>null\<close> or \<open>undefined\<close>: true for the
  missing value and for the empty string.
\<close>

definition falsy :: "string option \<Rightarrow> bool" where
  "falsy r = (case r of None \<Rightarrow> True | Some t \<Rightarrow> t = [])"

text \<open>
  The cache operations take the reading of \<open>Date.now()\<close> as the argument \<open>now\<close>;
  each reads the clock at most once.
\<close>

definition cache_setRecord ::
  "string \<Rightarrow> nat \<Rightarrow> string \<Rightarrow> string option \<Rightarrow> int \<Rightarrow> ethereum_cache \<Rightarrow> ethereum_cache" where
  "cache_setRecord name type resolverAddress record now c =
     (let key = toDnsKey name type resolverAddress;
          record' = (if falsy record then Some ''0x'' else record)
      in lru_set key \<lparr>item_time = now, item_record = record', item_resolver = None\<rparr> c)"

definition cache_getRecord ::
  "string \<Rightarrow> nat \<Rightarrow> string \<Rightarrow> int \<Rightarrow> ethereum_cache \<Rightarrow> string option \<times> ethereum_cache" where
  "cache_getRecord name type resolverAddress now c =
     (let key = toDnsKey name type resolverAddress
      in case lru_get key c of
           (None, c') \<Rightarrow> (None, c')
         | (Some item, c') \<Rightarrow>
             if now > item_time item + CACHE_TTL then (None, c')
             else (item_record item, c'))"

definition cache_setResolver ::
  "string \<Rightarrow> string \<Rightarrow> contract option \<Rightarrow> int \<Rightarrow> ethereum_cache \<Rightarrow> ethereum_cache" where
  "cache_setResolver node registryAddress resolver now c =
     (case resolver of
        None \<Rightarrow> c
      | Some r \<Rightarrow>
          lru_set (toResolverKey node registryAddress)
            \<lparr>item_time = now, item_record = None, item_resolver = Some r\<rparr> c)"

definition cache_getResolver ::
  "string \<Rightarrow> string \<Rightarrow> int \<Rightarrow> ethereum_cache \<Rightarrow> contract option \<times> ethereum_cache" where
  "cache_getResolver node registryAddress now c =
     (let key = toResolverKey node registryAddress
      in case lru_get key c of
           (None, c') \<Rightarrow> (None, c')
         | (Some item, c') \<Rightarrow>
             if now > item_time item + CACHE_TTL then (None, c')
             else (item_resolver item, c'))"

definition cache_reset :: "ethereum_cache \<Rightarrow> ethereum_cache" where
  "cache_reset c = lru_reset c"

section \<open>The collaborators of the engine\<close>

text \<open>
  Modelled from the spec: \<open>Buffer.from(text, 'hex')\<close> belongs to the Node.js runtime,
  not to the sources. It decodes pairs of hexadecimal digits into bytes and stops at the
  first pair that is not hexadecimal; a single trailing character is dropped.
\<close>

definition hex_val :: "char \<Rightarrow> nat option" where
  "hex_val c =
     (let n = (of_char c :: nat)
      in if 48 \<le> n \<and> n \<le> 57 then Some (n - 48)
         else if 97 \<le> n \<and> n \<le> 102 then Some (n - 87)
         else if 65 \<le> n \<and> n \<le> 70 then Some (n - 55)
         else None)"

fun hex_decode :: "string \<Rightarrow> 8 word list" where
  "hex_decode (a # b # rest) =
     (case (hex_val a, hex_val b) of
        (Some h, Some l) \<Rightarrow> of_nat (16 * h + l) # hex_decode rest
      | _ \<Rightarrow> [])"
| "hex_decode _ = []"

text \<open>
  The record type codes \<open>wire.types\<close> of the bns library, as the DNS assigns them.
\<close>

definition types_NS :: nat where
  "types_NS = 2"

definition types_CNAME :: nat where
  "types_CNAME = 5"

definition types_DS :: nat where
  "types_DS = 43"

definition ENS_ADDRESS :: string where
  "ENS_ADDRESS = ''0x00000000000C2E074eC69A0dFb2997BA6C7d2e1e''"

definition ZERO_ADDRESS :: string where
  "ZERO_ADDRESS = ''0x0000000000000000000000000000000000000000''"

text \<open>
  A library call that throws and a remote call whose promise is rejected end the request
  with an exception.
\<close>

datatype error = InvalidName string | RemoteFailure string

text \<open>
  The world outside the engine: the two hash functions (\<open>ethers.utils.namehash\<close>, and
  \<open>keccak256\<close> of the packed name for \<open>hashDnsName\<close>), whose results are hex texts and
  which may throw; the two contract reads the engine issues; and the clock, whose
  \<open>n\<close>-th reading is \<open>clock n\<close>.
\<close>

record env =
  namehash :: "string \<Rightarrow> error + string"
  hashDnsName :: "string \<Rightarrow> error + string"
  registry_resolver :: "string \<Rightarrow> string \<Rightarrow> error + string"
  resolver_dnsRecord :: "string \<Rightarrow> string \<Rightarrow> string \<Rightarrow> nat \<Rightarrow> error + string option"
  clock :: "nat \<Rightarrow> int"

text \<open>The remote calls issued, in order: contract address and arguments.\<close>

datatype remote_call =
  RegistryResolver string string
| ResolverDnsRecord string string string nat

text \<open>
  The state of an \<open>Ethereum\<close> object and of its surroundings: the cache, the remote
  calls issued so far, and the number of clock readings handed to cache operations so
  far. Every cache operation the engine performs is handed the next reading.
\<close>

record state =
  cache :: ethereum_cache
  calls :: "remote_call list"
  ticks :: nat

definition Ethereum :: state where
  "Ethereum = \<lparr>cache = EthereumCache 3000, calls = [], ticks = 0\<rparr>"

section \<open>The engine\<close>

definition getAbstractEnsRegistry :: "string \<Rightarrow> contract" where
  "getAbstractEnsRegistry addr = Contract addr"

definition getResolverFromRegistry ::
  "env \<Rightarrow> string \<Rightarrow> contract \<Rightarrow> state \<Rightarrow> (error + contract option) \<times> state" where
  "getResolverFromRegistry e name registry s =
     (case namehash e name of
        Inl err \<Rightarrow> (Inl err, s)
      | Inr h \<Rightarrow>
          (let s1 = s\<lparr>calls := calls s @ [RegistryResolver (address registry) h]\<rparr>
           in case registry_resolver e (address registry) h of
                Inl err \<Rightarrow> (Inl err, s1)
              | Inr resolverAddr \<Rightarrow>
                  if resolverAddr = ZERO_ADDRESS then (Inr None, s1)
                  else (Inr (Some (Contract resolverAddr)), s1)))"

definition getResolver ::
  "env \<Rightarrow> string \<Rightarrow> string \<Rightarrow> state \<Rightarrow> (error + contract option) \<times> state" where
  "getResolver e name registryAddress s =
     (case cache_getResolver name registryAddress (clock e (ticks s)) (cache s) of
        (cached, c1) \<Rightarrow>
          (let s1 = s\<lparr>cache := c1, ticks := Suc (ticks s)\<rparr>
           in case cached of
                Some r \<Rightarrow> (Inr (Some r), s1)
              | None \<Rightarrow>
                  (case getResolverFromRegistry e name (getAbstractEnsRegistry registryAddress) s1 of
                     (Inl err, s2) \<Rightarrow> (Inl err, s2)
                   | (Inr resolver, s2) \<Rightarrow>
                       (Inr resolver,
                        s2\<lparr>cache := cache_setResolver name registryAddress resolver
                                       (clock e (ticks s2)) (cache s2),
                           ticks := Suc (ticks s2)\<rparr>))))"

definition getEnsResolver ::
  "env \<Rightarrow> string \<Rightarrow> state \<Rightarrow> (error + contract option) \<times> state" where
  "getEnsResolver e name s = getResolver e name ENS_ADDRESS s"

text \<open>
  The end of \<open>getRRSet\<close>: nothing for a missing record and for the text \<open>0x\<close>,
  otherwise the bytes of the text after its first two characters.
\<close>

definition decodeRecord :: "string option \<Rightarrow> 8 word list option" where
  "decodeRecord record =
     (if falsy record \<or> record = Some ''0x'' then None
      else Some (hex_decode (drop 2 (the record))))"

definition getRRSet ::
  "env \<Rightarrow> string \<Rightarrow> nat \<Rightarrow> string \<Rightarrow> contract option \<Rightarrow> state
     \<Rightarrow> (error + 8 word list option) \<times> state" where
  "getRRSet e name type node resolver s =
     (case resolver of
        None \<Rightarrow> (Inr None, s)
      | Some r \<Rightarrow>
          (case cache_getRecord name type (address r) (clock e (ticks s)) (cache s) of
             (record, c1) \<Rightarrow>
               (let s1 = s\<lparr>cache := c1, ticks := Suc (ticks s)\<rparr>
                in if falsy record then
                     (case namehash e (trimFQDN node) of
                        Inl err \<Rightarrow> (Inl err, s1)
                      | Inr nh \<Rightarrow>
                          (case hashDnsName e name of
                             Inl err \<Rightarrow> (Inl err, s1)
                           | Inr dh \<Rightarrow>
                               (let s2 = s1\<lparr>calls := calls s1 @
                                              [ResolverDnsRecord (address r) nh dh type]\<rparr>
                                in case resolver_dnsRecord e (address r) nh dh type of
                                     Inl err \<Rightarrow> (Inl err, s2)
                                   | Inr fetched \<Rightarrow>
                                       (Inr (decodeRecord fetched),
                                        s2\<lparr>cache := cache_setRecord name type (address r) fetched
                                                       (clock e (ticks s2)) (cache s2),
                                           ticks := Suc (ticks s2)\<rparr>))))
                   else (Inr (decodeRecord record), s1))))"

definition resolveDnsWithResolver ::
  "env \<Rightarrow> string \<Rightarrow> nat \<Rightarrow> string \<Rightarrow> contract option \<Rightarrow> state
     \<Rightarrow> (error + 8 word list option) \<times> state" where
  "resolveDnsWithResolver e name type node resolver s =
     (case getRRSet e name type node resolver s of
        (Inl err, s1) \<Rightarrow> (Inl err, s1)
      | (Inr (Some rrSet), s1) \<Rightarrow>
          if type = types_NS then
            (case getRRSet e name types_DS node resolver s1 of
               (Inl err, s2) \<Rightarrow> (Inl err, s2)
             | (Inr (Some dsSet), s2) \<Rightarrow> (Inr (Some (rrSet @ dsSet)), s2)
             | (Inr None, s2) \<Rightarrow> (Inr (Some rrSet), s2))
          else (Inr (Some rrSet), s1)
      | (Inr None, s1) \<Rightarrow>
          (let sname = fqdn node
           in case getRRSet e sname types_NS node resolver s1 of
                (Inl err, s2) \<Rightarrow> (Inl err, s2)
              | (Inr (Some nsSet), s2) \<Rightarrow>
                  (case getRRSet e sname types_DS node resolver s2 of
                     (Inl err, s3) \<Rightarrow> (Inl err, s3)
                   | (Inr (Some dsSet), s3) \<Rightarrow> (Inr (Some (nsSet @ dsSet)), s3)
                   | (Inr None, s3) \<Rightarrow> (Inr (Some nsSet), s3))
              | (Inr None, s2) \<Rightarrow> getRRSet e name types_CNAME node resolver s2))"

text \<open>
  \<open>if (!node) node = this.toNode(name)\<close>: the optional argument \<open>node\<close> is replaced
  when it is missing or empty.
\<close>

definition nodeOrDefault :: "string \<Rightarrow> string option \<Rightarrow> string" where
  "nodeOrDefault name node = (if falsy node then toNode name else the node)"

definition resolveDnsFromEns ::
  "env \<Rightarrow> string \<Rightarrow> nat \<Rightarrow> string option \<Rightarrow> state \<Rightarrow> (error + 8 word list option) \<times> state" where
  "resolveDnsFromEns e name type node0 s =
     (let node = nodeOrDefault name node0
      in case getEnsResolver e (trimFQDN node) s of
           (Inl err, s1) \<Rightarrow> (Inl err, s1)
         | (Inr resolver, s1) \<Rightarrow> resolveDnsWithResolver e name type node resolver s1)"

definition resolveDnsFromAbstractEns ::
  "env \<Rightarrow> string \<Rightarrow> nat \<Rightarrow> string \<Rightarrow> string option \<Rightarrow> state
     \<Rightarrow> (error + 8 word list option) \<times> state" where
  "resolveDnsFromAbstractEns e name type ns node0 s =
     (let node = nodeOrDefault name node0;
          labels = js_split CHR ''.'' ns
      in if length labels \<noteq> 3 then (Inr None, s)
         else if labels ! 1 \<noteq> ''_eth'' then (Inr None, s)
         else (let addr = labels ! 0
               in if length addr \<noteq> 42 then (Inr None, s)
                  else (case getResolver e (trimFQDN node) addr s of
                          (Inl err, s1) \<Rightarrow> (Inl err, s1)
                        | (Inr resolver, s1) \<Rightarrow>
                            resolveDnsWithResolver e name type node resolver s1)))"

definition resolveDnsFromRegistry ::
  "env \<Rightarrow> string \<Rightarrow> nat \<Rightarrow> string \<Rightarrow> string option \<Rightarrow> state
     \<Rightarrow> (error + 8 word list option) \<times> state" where
  "resolveDnsFromRegistry e name type registryAddress node0 s =
     (let node = nodeOrDefault name node0
      in case getResolver e (trimFQDN node) registryAddress s of
           (Inl err, s1) \<Rightarrow> (Inl err, s1)
         | (Inr resolver, s1) \<Rightarrow> resolveDnsWithResolver e name type node resolver s1)"

section \<open>An example world\<close>

text \<open>
  A small world on which the theorems below are run. The hashes are the names with a
  prefix. The root registry knows one resolver for the nodes \<open>example.eth\<close>,
  \<open>secure.eth\<close> and \<open>other.eth\<close> and none for any other node. The resolver holds
  NS, DS and A records for \<open>www.example.eth.\<close>, an NS record at the apex
  \<open>example.eth.\<close>, NS and DS records at the apex \<open>secure.eth.\<close>, and a CNAME
  record for \<open>alias.other.eth.\<close>; every other read returns the empty text \<open>0x\<close>.
  The clock advances by ten milliseconds from one reading to the next.
\<close>

definition example_resolver :: string where
  "example_resolver = ''0x1111111111111111111111111111111111111111''"

definition example_records :: "((string \<times> nat) \<times> string) list" where
  "example_records =
     [((''dh:www.example.eth.'', 2), ''0x0102''),
      ((''dh:www.example.eth.'', 43), ''0xabcd''),
      ((''dh:www.example.eth.'', 1), ''0x7f000001''),
      ((''dh:example.eth.'', 2), ''0x0304''),
      ((''dh:secure.eth.'', 2), ''0x0607''),
      ((''dh:secure.eth.'', 43), ''0x0809''),
      ((''dh:alias.other.eth.'', 5), ''0x05'')]"

definition example_env :: env where
  "example_env =
     \<lparr>namehash = (\<lambda>n. Inr (''nh:'' @ n)),
      hashDnsName = (\<lambda>n. Inr (''dh:'' @ n)),
      registry_resolver =
        (\<lambda>registry h.
           Inr (if registry = ENS_ADDRESS \<and>
                   h \<in> set [''nh:example.eth'', ''nh:secure.eth'', ''nh:other.eth'']
                then example_resolver else ZERO_ADDRESS)),
      resolver_dnsRecord =
        (\<lambda>resolver nh dh t.
           Inr (case map_of example_records (dh, t) of
                  None \<Rightarrow> Some ''0x''
                | Some text \<Rightarrow> Some text)),
      clock = (\<lambda>n. 10 * int n)\<rparr>"

section \<open>Splitting and joining labels\<close>

lemma js_split_nonempty: "js_split sep s \<noteq> []"
  by (induction s) (auto split: list.splits)

lemma js_split_label: "sep \<notin> set l \<Longrightarrow> js_split sep l = [l]"
  by (induction l) auto

lemma js_split_append:
  "sep \<notin> set l \<Longrightarrow> js_split sep (l @ sep # rest) = l # js_split sep rest"
  by (induction l) auto

lemma js_split_join:
  "ls \<noteq> [] \<Longrightarrow> \<forall>l\<in>set ls. sep \<notin> set l \<Longrightarrow> js_split sep (js_join sep ls) = ls"
proof (induction sep ls rule: js_join.induct)
  case (1 sep)
  then show ?case by simp
next
  case (2 sep l)
  then show ?case by (simp add: js_split_label)
next
  case (3 sep l m ls)
  then show ?case by (simp add: js_split_append)
qed

lemma trimFQDN_dot: "trimFQDN (s @ ''.'') = s"
  by (simp add: trimFQDN_def isFQDN_def)

section \<open>Node derivation: the last two labels\<close>

lemma js_split_dotfree: "\<forall>l\<in>set (js_split sep s). sep \<notin> set l"
  by (induction s) (auto split: list.splits)

lemma js_join_Cons_char: "js_join sep ((c # l) # ls) = c # js_join sep (l # ls)"
  by (cases ls) simp_all

lemma js_join_split: "js_join sep (js_split sep s) = s"
proof (induction s)
  case Nil
  show ?case by simp
next
  case (Cons c cs)
  obtain l ls where sp: "js_split sep cs = l # ls"
    using js_split_nonempty [of sep cs] by (cases "js_split sep cs") auto
  with Cons show ?case by (simp add: js_join_Cons_char)
qed

lemma js_slice_last_two:
  assumes "1 < length ls"
  shows "js_slice_last 2 ls = [ls ! (length ls - 2), ls ! (length ls - 1)]"
  unfolding js_slice_last_def
proof (rule nth_equalityI)
  show "length (drop (length ls - 2) ls) = length [ls ! (length ls - 2), ls ! (length ls - 1)]"
    using assms by simp
next
  fix i assume "i < length (drop (length ls - 2) ls)"
  with assms have i: "i = 0 \<or> i = 1" by auto
  have "length ls - 2 + 1 = length ls - 1" using assms by simp
  with i assms show "drop (length ls - 2) ls ! i = [ls ! (length ls - 2), ls ! (length ls - 1)] ! i"
    by auto
qed

lemma toNode_by_labels:
  assumes "ls \<noteq> []" "\<forall>l\<in>set ls. CHR ''.'' \<notin> set l" "trimFQDN name = js_join CHR ''.'' ls"
  shows "toNode name =
           (if length ls > 1 then ls ! (length ls - 2) @ ''.'' @ ls ! (length ls - 1) else name)"
proof -
  have "js_split CHR ''.'' (trimFQDN name) = ls"
    using assms by (simp add: js_split_join)
  then show ?thesis
    by (simp add: toNode_def Let_def js_slice_last_two)
qed

lemma trimFQDN_no_dot: "s = [] \<or> last s \<noteq> CHR ''.'' \<Longrightarrow> trimFQDN s = s"
  by (auto simp: trimFQDN_def isFQDN_def)

text \<open>
  Claim C7, as the code has it. \<open>trimFQDN\<close> strips one trailing root dot and leaves a
  name without one as it is. Every name, trimmed, is the join of its labels, of which
  there is at least one and none of which contains a dot; the labels may be empty, as
  are the single label of the empty name and the last label of a name that ends with two
  dots. Whatever these labels are, with more than one of them \<open>toNode\<close> returns the
  last two joined by a dot, and with a single one it returns its argument as it came:
  a trailing root dot, when there is one, is still there. The three names of the
  specification give \<open>example.eth\<close>, \<open>eth\<close> and \<open>example.eth\<close>.
\<close>

theorem toNode_last_two_labels:
  "(ls \<noteq> [] \<and> (\<forall>l\<in>set ls. CHR ''.'' \<notin> set l) \<and> trimFQDN name = js_join CHR ''.'' ls \<longrightarrow>
      toNode name =
        (if length ls > 1 then ls ! (length ls - 2) @ ''.'' @ ls ! (length ls - 1) else name)) \<and>
   (js_split CHR ''.'' (trimFQDN name) \<noteq> [] \<and>
    (\<forall>l\<in>set (js_split CHR ''.'' (trimFQDN name)). CHR ''.'' \<notin> set l) \<and>
    js_join CHR ''.'' (js_split CHR ''.'' (trimFQDN name)) = trimFQDN name) \<and>
   trimFQDN (s @ ''.'') = s \<and>
   (s = [] \<or> last s \<noteq> CHR ''.'' \<longrightarrow> trimFQDN s = s) \<and>
   toNode ''a.b.example.eth'' = ''example.eth'' \<and>
   toNode ''eth'' = ''eth'' \<and>
   toNode ''example.eth'' = ''example.eth''"
proof -
  have e1: "toNode ''a.b.example.eth'' = ''example.eth''" by code_simp
  have e2: "toNode ''eth'' = ''eth''" by code_simp
  have e3: "toNode ''example.eth'' = ''example.eth''" by code_simp
  from toNode_by_labels [of ls "name"] js_split_nonempty [of "CHR ''.''" "trimFQDN name"]
    js_split_dotfree [of "CHR ''.''" "trimFQDN name"] js_join_split [of "CHR ''.''" "trimFQDN name"]
    trimFQDN_dot [of s] trimFQDN_no_dot [of s] e1 e2 e3
  show ?thesis by blast
qed

text \<open>
  The theorem at the names \<open>www.example.eth.\<close> and \<open>eth.\<close>, at the empty name,
  at the root \<open>.\<close> and at a name that ends with two dots.
\<close>

theorem toNode_last_two_labels_witness:
  "toNode ''www.example.eth.'' = ''example.eth'' \<and>
   toNode ''eth.'' = ''eth.'' \<and>
   toNode '''' = '''' \<and>
   toNode ''.'' = ''.'' \<and>
   toNode ''a..'' = ''a.'' \<and>
   trimFQDN ''eth'' = ''eth''"
proof -
  have t1: "trimFQDN ''www.example.eth.'' = js_join CHR ''.'' [''www'', ''example'', ''eth'']"
    and t2: "trimFQDN ''eth.'' = js_join CHR ''.'' [''eth'']"
    and t3: "trimFQDN '''' = js_join CHR ''.'' ['''']"
    and t4: "trimFQDN ''.'' = js_join CHR ''.'' ['''']"
    and t5: "trimFQDN ''a..'' = js_join CHR ''.'' [''a'', '''']"
    by code_simp+
  from t1 toNode_last_two_labels [of "[''www'', ''example'', ''eth'']" "''www.example.eth.''"]
  have a: "toNode ''www.example.eth.'' = ''example.eth''" by simp
  from t2 toNode_last_two_labels [of "[''eth'']" "''eth.''"]
  have b: "toNode ''eth.'' = ''eth.''" by simp
  from t3 toNode_last_two_labels [of "['''']" "''''"]
  have c: "toNode '''' = ''''" by simp
  from t4 toNode_last_two_labels [of "['''']" "''.''"]
  have d: "toNode ''.'' = ''.''" by simp
  from t5 toNode_last_two_labels [of "[''a'', '''']" "''a..''"]
  have e: "toNode ''a..'' = ''a.''" by simp
  from toNode_last_two_labels [of _ _ "''eth''"]
  have f: "trimFQDN ''eth'' = ''eth''" by simp
  from a b c d e f show ?thesis by blast
qed

text \<open>
  The name \<open>eth.\<close> has one label once its root dot is stripped, and \<open>toNode\<close> does
  not return the trimmed name \<open>eth\<close> for it.
\<close>

theorem toNode_single_label_untrimmed:
  "length (js_split CHR ''.'' (trimFQDN ''eth.'')) = 1 \<and>
   trimFQDN ''eth.'' = ''eth'' \<and>
   toNode ''eth.'' \<noteq> trimFQDN ''eth.''"
  by code_simp

section \<open>Cache keys\<close>

lemma digit_char_not_semi: "d < 10 \<Longrightarrow> digit_char d \<noteq> CHR '';''"
proof
  assume d: "d < 10" and eq: "digit_char d = CHR '';''"
  from eq have "of_char (digit_char d) = (of_char CHR '';'' :: nat)" by simp
  with d show False by (simp add: digit_char_def)
qed

lemma digit_char_inj: "a < 10 \<Longrightarrow> b < 10 \<Longrightarrow> digit_char a = digit_char b \<Longrightarrow> a = b"
proof -
  assume a: "a < 10" and b: "b < 10" and eq: "digit_char a = digit_char b"
  from eq have "of_char (digit_char a) = (of_char (digit_char b) :: nat)" by simp
  with a b show "a = b" by (simp add: digit_char_def)
qed

lemma toString_no_semi: "CHR '';'' \<notin> set (toString n)"
proof (induction n rule: toString.induct)
  case (1 n)
  show ?case
  proof (cases "n < 10")
    case True
    then show ?thesis using digit_char_not_semi [of n] by (simp add: toString.simps [of n])
  next
    case False
    then show ?thesis
      using 1 digit_char_not_semi [of "n mod 10"] by (simp add: toString.simps [of n])
  qed
qed

lemma toString_nonempty: "toString n \<noteq> []"
  by (simp add: toString.simps [of n])

lemma toString_inj: "toString m = toString n \<Longrightarrow> m = n"
proof (induction m arbitrary: n rule: toString.induct)
  case (1 m)
  show ?case
  proof (cases "m < 10")
    case m: True
    show ?thesis
    proof (cases "n < 10")
      case True
      with m 1(2) show ?thesis
        by (simp add: toString.simps [of m] toString.simps [of n] digit_char_inj)
    next
      case False
      with m 1(2) toString_nonempty [of "n div 10"] show ?thesis
        by (simp add: toString.simps [of m] toString.simps [of n])
    qed
  next
    case m: False
    show ?thesis
    proof (cases "n < 10")
      case True
      with m 1(2) toString_nonempty [of "m div 10"] show ?thesis
        by (simp add: toString.simps [of m] toString.simps [of n])
    next
      case False
      with m 1(2) have eq: "toString (m div 10) = toString (n div 10)"
        and dg: "digit_char (m mod 10) = digit_char (n mod 10)"
        by (simp_all add: toString.simps [of m] toString.simps [of n])
      from 1(1) [OF m eq] have "m div 10 = n div 10" .
      moreover from dg have "m mod 10 = n mod 10" by (simp add: digit_char_inj)
      ultimately show ?thesis by (metis div_mult_mod_eq)
    qed
  qed
qed

lemma sep_unique:
  "sep \<notin> set b \<Longrightarrow> sep \<notin> set b' \<Longrightarrow> a @ sep # b = a' @ sep # b' \<Longrightarrow> a = a' \<and> b = b'"
proof (induction a arbitrary: a')
  case Nil
  then show ?case by (cases a') auto
next
  case (Cons x a)
  then show ?case by (cases a') auto
qed

lemma append_same_length:
  "length b = length b' \<Longrightarrow> a @ b = a' @ b' \<Longrightarrow> a = a' \<and> b = b'"
  by simp

lemma tag_DNS_text: "toString CACHE_TAGS_DNS = ''0''"
  by code_simp

lemma tag_RESOLVER_text: "toString CACHE_TAGS_RESOLVER = ''1''"
  by code_simp

lemma toDnsKey_inj_nosemi:
  assumes "CHR '';'' \<notin> set a1" "CHR '';'' \<notin> set a2" "toDnsKey n1 t1 a1 = toDnsKey n2 t2 a2"
  shows "n1 = n2 \<and> t1 = t2 \<and> a1 = a2"
proof -
  from assms(3) have "(n1 @ '';'' @ toString t1) @ CHR '';'' # a1 = (n2 @ '';'' @ toString t2) @ CHR '';'' # a2"
    by (simp add: toDnsKey_def)
  from sep_unique [OF assms(1) assms(2) this]
  have a: "a1 = a2" and "n1 @ CHR '';'' # toString t1 = n2 @ CHR '';'' # toString t2" by simp_all
  from sep_unique [OF toString_no_semi toString_no_semi this(2)]
  have "n1 = n2" and "toString t1 = toString t2" by simp_all
  with a toString_inj show ?thesis by blast
qed

lemma toDnsKey_inj_length:
  assumes "length a1 = length a2" "toDnsKey n1 t1 a1 = toDnsKey n2 t2 a2"
  shows "n1 = n2 \<and> t1 = t2 \<and> a1 = a2"
proof -
  define x where "x = n1 @ CHR '';'' # toString t1"
  define y where "y = n2 @ CHR '';'' # toString t2"
  have "(x @ '';'') @ a1 = (y @ '';'') @ a2"
    using assms(2) by (simp add: toDnsKey_def x_def y_def)
  from append_same_length [OF assms(1) this]
  have "x @ '';'' = y @ '';''" and a: "a1 = a2" by simp_all
  then have "x = y" by simp
  then have "n1 @ CHR '';'' # toString t1 = n2 @ CHR '';'' # toString t2"
    by (simp add: x_def y_def)
  from sep_unique [OF toString_no_semi toString_no_semi this]
  have "n1 = n2" and "toString t1 = toString t2" by simp_all
  with a toString_inj show ?thesis by blast
qed

lemma toResolverKey_inj_nosemi:
  assumes "CHR '';'' \<notin> set r1" "CHR '';'' \<notin> set r2" "toResolverKey n1 r1 = toResolverKey n2 r2"
  shows "n1 = n2 \<and> r1 = r2"
proof -
  from assms(3) have "n1 @ CHR '';'' # r1 = n2 @ CHR '';'' # r2"
    by (simp add: toResolverKey_def)
  from sep_unique [OF assms(1) assms(2) this] show ?thesis .
qed

lemma toResolverKey_inj_length:
  assumes "length r1 = length r2" "toResolverKey n1 r1 = toResolverKey n2 r2"
  shows "n1 = n2 \<and> r1 = r2"
proof -
  define x where "x = n1 @ '';''"
  define y where "y = n2 @ '';''"
  have "x @ r1 = y @ r2"
    using assms(2) by (simp add: toResolverKey_def x_def y_def)
  from append_same_length [OF assms(1) this]
  show ?thesis by (simp add: x_def y_def)
qed

lemma cache_tags_differ: "toDnsKey n t a \<noteq> toResolverKey m r"
  by (simp add: toDnsKey_def toResolverKey_def tag_DNS_text tag_RESOLVER_text)

text \<open>
  Claim C9, as the code has it. The keys are the parts joined by semicolons, so they
  tell the parts apart when the address does not contain a semicolon, or when the two
  addresses have the same length (as two 42-character addresses have): then two record
  keys are equal exactly when name, type and resolver address are, and two resolver keys
  exactly when node and registry address are. A record key never equals a resolver key,
  whatever the parts.
\<close>

theorem cache_keys_disambiguate:
  "((CHR '';'' \<notin> set aa \<and> CHR '';'' \<notin> set ab) \<or> length aa = length ab \<longrightarrow>
      (toDnsKey na ta aa = toDnsKey nb tb ab \<longleftrightarrow> na = nb \<and> ta = tb \<and> aa = ab)) \<and>
   ((CHR '';'' \<notin> set ra \<and> CHR '';'' \<notin> set rb) \<or> length ra = length rb \<longrightarrow>
      (toResolverKey ma ra = toResolverKey mb rb \<longleftrightarrow> ma = mb \<and> ra = rb)) \<and>
   toDnsKey nc tc ac \<noteq> toResolverKey mc rc"
  using toDnsKey_inj_nosemi [of aa ab na ta nb tb] toDnsKey_inj_length [of aa ab na ta nb tb]
        toResolverKey_inj_nosemi [of ra rb ma mb] toResolverKey_inj_length [of ra rb ma mb]
        cache_tags_differ [of nc tc ac mc rc]
  by blast

text \<open>
  The theorem at two resolver addresses of the same length, and at the root registry
  address against another address of its length.
\<close>

theorem cache_keys_disambiguate_witness:
  "length ''0xAA'' = length ''0xBB'' \<and>
   toDnsKey ''example.eth.'' 2 ''0xAA'' \<noteq> toDnsKey ''example.eth.'' 2 ''0xBB'' \<and>
   CHR '';'' \<notin> set ''0xAA'' \<and>
   toResolverKey ''example.eth'' ''0xAA'' \<noteq> toResolverKey ''eth'' ''0xAA'' \<and>
   toDnsKey ''eth'' 1 ''0xAA'' \<noteq> toResolverKey ''eth'' ''0xAA''"
  using cache_keys_disambiguate [of "''0xAA''" "''0xBB''" "''example.eth.''" 2 "''example.eth.''" 2
          "''0xAA''" "''0xAA''" "''example.eth''" "''eth''" "''eth''" 1 "''0xAA''" "''eth''" "''0xAA''"]
  by simp

text \<open>
  With a semicolon inside a name and inside an address, two different triples give the
  same record key, and two different pairs the same resolver key.
\<close>

theorem cache_keys_collide:
  "toDnsKey ''a;1'' 2 ''x'' = toDnsKey ''a'' 1 ''2;x'' \<and>
   (''a;1'', 2 :: nat, ''x'') \<noteq> (''a'', 1, ''2;x'') \<and>
   toResolverKey ''a'' ''b;c'' = toResolverKey ''a;b'' ''c'' \<and>
   (''a'', ''b;c'') \<noteq> (''a;b'', ''c'')"
  by code_simp

section \<open>The store and the two cache classes\<close>

lemma map_of_filter_key:
  "map_of (filter (\<lambda>p. fst p \<noteq> k) xs) k' = (if k' = k then None else map_of xs k')"
  by (induction xs) auto

lemma map_of_lru_touch:
  "map_of (lru_touch k v xs) k' = (if k' = k then Some v else map_of xs k')"
  by (simp add: lru_touch_def map_of_filter_key)

lemma length_lru_touch: "length (lru_touch k v xs) \<le> Suc (length xs)"
  by (simp add: lru_touch_def)

lemma lru_get_fst: "fst (lru_get k c) = lru_peek c k"
  by (simp add: lru_get_def lru_peek_def split: option.splits)

lemma lru_get_peek: "lru_peek (snd (lru_get k c)) k' = lru_peek c k'"
  by (auto simp: lru_get_def lru_peek_def map_of_lru_touch split: option.splits)

lemma lru_get_absent: "lru_peek c k = None \<Longrightarrow> lru_get k c = (None, c)"
  by (simp add: lru_get_def lru_peek_def)

lemma lru_set_peek_same: "0 < capacity c \<Longrightarrow> lru_peek (lru_set k v c) k = Some v"
  by (cases "capacity c") (simp_all add: lru_set_def lru_peek_def lru_touch_def)

lemma lru_set_peek_other:
  assumes "k' \<noteq> k" "length (items c) < capacity c"
  shows "lru_peek (lru_set k v c) k' = lru_peek c k'"
proof -
  have "length (lru_touch k v (items c)) \<le> capacity c"
    using length_lru_touch [of k v "items c"] assms(2) by simp
  then have "take (capacity c) (lru_touch k v (items c)) = lru_touch k v (items c)"
    by simp
  with assms show ?thesis
    by (simp add: lru_set_def lru_peek_def map_of_lru_touch)
qed

lemma cache_getRecord_fst:
  "fst (cache_getRecord n t r now c) =
     (case lru_peek c (toDnsKey n t r) of
        None \<Rightarrow> None
      | Some item \<Rightarrow> if now > item_time item + CACHE_TTL then None else item_record item)"
  using lru_get_fst [of "toDnsKey n t r" c]
  by (auto simp: cache_getRecord_def split: prod.splits option.splits)

lemma cache_getRecord_snd: "snd (cache_getRecord n t r now c) = snd (lru_get (toDnsKey n t r) c)"
  by (auto simp: cache_getRecord_def split: prod.splits option.splits)

lemma cache_getResolver_fst:
  "fst (cache_getResolver m g now c) =
     (case lru_peek c (toResolverKey m g) of
        None \<Rightarrow> None
      | Some item \<Rightarrow> if now > item_time item + CACHE_TTL then None else item_resolver item)"
  using lru_get_fst [of "toResolverKey m g" c]
  by (auto simp: cache_getResolver_def split: prod.splits option.splits)

lemma cache_getResolver_snd: "snd (cache_getResolver m g now c) = snd (lru_get (toResolverKey m g) c)"
  by (auto simp: cache_getResolver_def split: prod.splits option.splits)

lemma cache_getRecord_peek: "lru_peek (snd (cache_getRecord n t r now c)) k = lru_peek c k"
  by (simp add: cache_getRecord_snd lru_get_peek)

lemma cache_getResolver_peek: "lru_peek (snd (cache_getResolver m g now c)) k = lru_peek c k"
  by (simp add: cache_getResolver_snd lru_get_peek)

lemma cache_setRecord_peek_same:
  "0 < capacity c \<Longrightarrow> bytes \<noteq> [] \<Longrightarrow>
     lru_peek (cache_setRecord n t r (Some bytes) now c) (toDnsKey n t r) =
       Some \<lparr>item_time = now, item_record = Some bytes, item_resolver = None\<rparr>"
  by (simp add: cache_setRecord_def falsy_def lru_set_peek_same)

lemma cache_setRecord_peek_other:
  "k \<noteq> toDnsKey n t r \<Longrightarrow> length (items c) < capacity c \<Longrightarrow>
     lru_peek (cache_setRecord n t r record now c) k = lru_peek c k"
  by (simp add: cache_setRecord_def lru_set_peek_other Let_def)

lemma cache_setResolver_peek_same:
  "0 < capacity c \<Longrightarrow>
     lru_peek (cache_setResolver m g (Some res) now c) (toResolverKey m g) =
       Some \<lparr>item_time = now, item_record = None, item_resolver = Some res\<rparr>"
  by (simp add: cache_setResolver_def lru_set_peek_same)


section \<open>Time to live of cached records\<close>

lemma map_of_take_Some: "map_of (take n xs) k = Some v \<Longrightarrow> map_of xs k = Some v"
proof (induction xs arbitrary: n)
  case Nil
  then show ?case by simp
next
  case (Cons x xs)
  then show ?case by (cases n) (auto split: if_splits)
qed

lemma lru_set_peek_frame:
  assumes "k' \<noteq> k"
  shows "lru_peek (lru_set k v c) k' = None \<or> lru_peek (lru_set k v c) k' = lru_peek c k'"
proof (cases "lru_peek (lru_set k v c) k'")
  case None
  then show ?thesis by simp
next
  case (Some x)
  show ?thesis
  proof (cases "capacity c = 0")
    case True
    then show ?thesis by (simp add: lru_set_def)
  next
    case False
    with Some have "map_of (take (capacity c) (lru_touch k v (items c))) k' = Some x"
      by (simp add: lru_set_def lru_peek_def)
    then have "map_of (lru_touch k v (items c)) k' = Some x"
      by (rule map_of_take_Some)
    with assms have "lru_peek c k' = Some x"
      by (simp add: map_of_lru_touch lru_peek_def)
    with Some show ?thesis by simp
  qed
qed

lemma cache_setRecord_peek_key:
  "0 < capacity c \<Longrightarrow>
     lru_peek (cache_setRecord n t r record now c) (toDnsKey n t r) =
       Some \<lparr>item_time = now,
             item_record = (if falsy record then Some ''0x'' else record),
             item_resolver = None\<rparr>"
  by (simp add: cache_setRecord_def Let_def lru_set_peek_same)

lemma cache_setRecord_peek_frame:
  "k \<noteq> toDnsKey n t r \<Longrightarrow>
     lru_peek (cache_setRecord n t r record now c) k = None \<or>
     lru_peek (cache_setRecord n t r record now c) k = lru_peek c k"
  by (simp add: cache_setRecord_def Let_def lru_set_peek_frame)

lemma cache_setResolver_peek_other:
  "k \<noteq> toResolverKey m g \<Longrightarrow> length (items c) < capacity c \<Longrightarrow>
     lru_peek (cache_setResolver m g res now c) k = lru_peek c k"
  by (cases res) (simp_all add: cache_setResolver_def lru_set_peek_other)

lemma cache_setResolver_peek_frame:
  "k \<noteq> toResolverKey m g \<Longrightarrow>
     lru_peek (cache_setResolver m g res now c) k = None \<or>
     lru_peek (cache_setResolver m g res now c) k = lru_peek c k"
  by (cases res) (simp_all add: cache_setResolver_def lru_set_peek_frame)

lemma cache_reset_peek: "lru_peek (cache_reset c) k = None"
  by (simp add: cache_reset_def lru_reset_def lru_peek_def)

lemma cache_setRecord_roundtrip:
  "0 < capacity c \<Longrightarrow> later \<le> now + CACHE_TTL \<Longrightarrow>
     fst (cache_getRecord n t r later (cache_setRecord n t r record now c)) =
       (if falsy record then Some ''0x'' else record)"
  by (simp add: cache_getRecord_fst cache_setRecord_peek_key)

text \<open>
  Claim C6, as the code has it. In a store of positive capacity, \<open>getRecord\<close> after
  \<open>setRecord\<close>, as long as the clock has not passed the time of storing plus the time
  to live, returns the record text that was passed when it is not empty, and the text
  \<open>0x\<close> when the record was missing or empty. Once the clock has passed that time,
  \<open>getRecord\<close> returns nothing, and the entry is still in the store, as it was stored.
  Reading a stale entry of any store returns nothing and leaves the entry in place; no
  read of a record or of a resolver, stale or not, changes what the store holds under
  any key. \<open>setRecord\<close> and \<open>setResolver\<close> replace the entry under their own key;
  under any other key they leave the entry as it is or, only when the store is full,
  drop it. \<open>reset\<close> empties the store.
\<close>

theorem record_cache_ttl:
  "(0 < capacity c \<and> later \<le> now + CACHE_TTL \<longrightarrow>
      fst (cache_getRecord n t r later (cache_setRecord n t r record now c)) =
        (if falsy record then Some ''0x'' else record)) \<and>
   (0 < capacity c \<and> bytes \<noteq> [] \<and> later \<le> now + CACHE_TTL \<longrightarrow>
      fst (cache_getRecord n t r later (cache_setRecord n t r (Some bytes) now c)) = Some bytes) \<and>
   (0 < capacity c \<and> bytes \<noteq> [] \<and> later > now + CACHE_TTL \<longrightarrow>
      fst (cache_getRecord n t r later (cache_setRecord n t r (Some bytes) now c)) = None \<and>
      lru_peek (snd (cache_getRecord n t r later (cache_setRecord n t r (Some bytes) now c)))
          (toDnsKey n t r) =
        Some \<lparr>item_time = now, item_record = Some bytes, item_resolver = None\<rparr>) \<and>
   (lru_peek c (toDnsKey n t r) = Some item \<and> later > item_time item + CACHE_TTL \<longrightarrow>
      fst (cache_getRecord n t r later c) = None \<and>
      lru_peek (snd (cache_getRecord n t r later c)) (toDnsKey n t r) = Some item) \<and>
   lru_peek (snd (cache_getRecord n t r later c)) k = lru_peek c k \<and>
   lru_peek (snd (cache_getResolver m g later c)) k = lru_peek c k \<and>
   (k \<noteq> toDnsKey n t r \<and> length (items c) < capacity c \<longrightarrow>
      lru_peek (cache_setRecord n t r record now c) k = lru_peek c k) \<and>
   (k \<noteq> toResolverKey m g \<and> length (items c) < capacity c \<longrightarrow>
      lru_peek (cache_setResolver m g res now c) k = lru_peek c k) \<and>
   (k \<noteq> toDnsKey n t r \<longrightarrow>
      lru_peek (cache_setRecord n t r record now c) k = None \<or>
      lru_peek (cache_setRecord n t r record now c) k = lru_peek c k) \<and>
   (k \<noteq> toResolverKey m g \<longrightarrow>
      lru_peek (cache_setResolver m g res now c) k = None \<or>
      lru_peek (cache_setResolver m g res now c) k = lru_peek c k) \<and>
   (0 < capacity c \<longrightarrow>
      lru_peek (cache_setRecord n t r record now c) (toDnsKey n t r) =
        Some \<lparr>item_time = now,
              item_record = (if falsy record then Some ''0x'' else record),
              item_resolver = None\<rparr>) \<and>
   lru_peek (cache_reset c) k = None"
proof -
  have old: "(0 < capacity c \<and> bytes \<noteq> [] \<and> later \<le> now + CACHE_TTL \<longrightarrow>
      fst (cache_getRecord n t r later (cache_setRecord n t r (Some bytes) now c)) = Some bytes) \<and>
   (0 < capacity c \<and> bytes \<noteq> [] \<and> later > now + CACHE_TTL \<longrightarrow>
      fst (cache_getRecord n t r later (cache_setRecord n t r (Some bytes) now c)) = None \<and>
      lru_peek (snd (cache_getRecord n t r later (cache_setRecord n t r (Some bytes) now c)))
          (toDnsKey n t r) =
        Some \<lparr>item_time = now, item_record = Some bytes, item_resolver = None\<rparr>) \<and>
   (lru_peek c (toDnsKey n t r) = Some item \<and> later > item_time item + CACHE_TTL \<longrightarrow>
      fst (cache_getRecord n t r later c) = None \<and>
      lru_peek (snd (cache_getRecord n t r later c)) (toDnsKey n t r) = Some item) \<and>
   lru_peek (snd (cache_getRecord n t r later c)) k = lru_peek c k \<and>
   lru_peek (snd (cache_getResolver m g later c)) k = lru_peek c k \<and>
   (k \<noteq> toDnsKey n t r \<and> length (items c) < capacity c \<longrightarrow>
      lru_peek (cache_setRecord n t r record now c) k = lru_peek c k)"
    by (simp add: cache_getRecord_fst cache_getRecord_peek cache_getResolver_peek
          cache_setRecord_peek_same cache_setRecord_peek_other)
  from old cache_setRecord_roundtrip [of c later now n t r "record"]
    cache_setResolver_peek_other [of k m g c res now]
    cache_setRecord_peek_frame [of k n t r "record" now c]
    cache_setResolver_peek_frame [of k m g res now c]
    cache_setRecord_peek_key [of c n t r "record" now]
    cache_reset_peek [of c k]
  show ?thesis by blast
qed

text \<open>
  The theorem on the cache of the engine: a read at the time of storing, of a record
  and of a missing record; a read 30 minutes and one millisecond later; a second record
  and a resolver stored beside the first record; the first record stored again; and the
  store reset.
\<close>

theorem record_cache_ttl_witness:
  "fst (cache_getRecord ''example.eth.'' 2 ''0xAA'' 1000
         (cache_setRecord ''example.eth.'' 2 ''0xAA'' (Some ''0x0102'') 1000 (EthereumCache 3000)))
     = Some ''0x0102'' \<and>
   fst (cache_getRecord ''example.eth.'' 2 ''0xAA'' 1000
         (cache_setRecord ''example.eth.'' 2 ''0xAA'' None 1000 (EthereumCache 3000)))
     = Some ''0x'' \<and>
   fst (cache_getRecord ''example.eth.'' 2 ''0xAA'' 1801001
         (cache_setRecord ''example.eth.'' 2 ''0xAA'' (Some ''0x0102'') 1000 (EthereumCache 3000)))
     = None \<and>
   lru_peek (snd (cache_getRecord ''example.eth.'' 2 ''0xAA'' 1801001
         (cache_setRecord ''example.eth.'' 2 ''0xAA'' (Some ''0x0102'') 1000 (EthereumCache 3000))))
       (toDnsKey ''example.eth.'' 2 ''0xAA'')
     = Some \<lparr>item_time = 1000, item_record = Some ''0x0102'', item_resolver = None\<rparr> \<and>
   lru_peek (cache_setRecord ''example.eth.'' 43 ''0xAA'' None 2000
         (cache_setRecord ''example.eth.'' 2 ''0xAA'' (Some ''0x0102'') 1000 (EthereumCache 3000)))
       (toDnsKey ''example.eth.'' 2 ''0xAA'')
     = Some \<lparr>item_time = 1000, item_record = Some ''0x0102'', item_resolver = None\<rparr> \<and>
   lru_peek (cache_setResolver ''example.eth'' ENS_ADDRESS (Some (Contract ''0xBB'')) 2000
         (cache_setRecord ''example.eth.'' 2 ''0xAA'' (Some ''0x0102'') 1000 (EthereumCache 3000)))
       (toDnsKey ''example.eth.'' 2 ''0xAA'')
     = Some \<lparr>item_time = 1000, item_record = Some ''0x0102'', item_resolver = None\<rparr> \<and>
   lru_peek (cache_setRecord ''example.eth.'' 2 ''0xAA'' (Some ''0x0304'') 2000
         (cache_setRecord ''example.eth.'' 2 ''0xAA'' (Some ''0x0102'') 1000 (EthereumCache 3000)))
       (toDnsKey ''example.eth.'' 2 ''0xAA'')
     = Some \<lparr>item_time = 2000, item_record = Some ''0x0304'', item_resolver = None\<rparr> \<and>
   lru_peek (cache_reset
         (cache_setRecord ''example.eth.'' 2 ''0xAA'' (Some ''0x0102'') 1000 (EthereumCache 3000)))
       (toDnsKey ''example.eth.'' 2 ''0xAA'')
     = None"
proof -
  let ?c0 = "EthereumCache 3000"
  let ?c1 = "cache_setRecord ''example.eth.'' 2 ''0xAA'' (Some ''0x0102'') 1000 ?c0"
  let ?key = "toDnsKey ''example.eth.'' 2 ''0xAA''"
  let ?item = "\<lparr>item_time = 1000, item_record = Some ''0x0102'', item_resolver = None\<rparr>"
  have cap: "0 < capacity ?c0"
    by (simp add: EthereumCache_def lru_new_def)
  have cap1: "0 < capacity ?c1"
    by code_simp
  have peek: "lru_peek ?c1 ?key = Some ?item"
    by code_simp
  have room: "length (items ?c1) < capacity ?c1"
    by code_simp
  have other: "?key \<noteq> toDnsKey ''example.eth.'' 43 ''0xAA''"
    by code_simp
  have other': "?key \<noteq> toResolverKey ''example.eth'' ENS_ADDRESS"
    by (rule cache_tags_differ)
  have f0: "falsy None" and f1: "\<not> falsy (Some ''0x0304'')"
    by (simp_all add: falsy_def)
  let ?rk = "toResolverKey ''example.eth'' ENS_ADDRESS"
  let ?res = "Some (Contract ''0xBB'')"
  from cap
    record_cache_ttl [of ?c0 1000 1000 "''example.eth.''" 2 "''0xAA''" None "''0x0102''" ?item ?key
       "''example.eth''" ENS_ADDRESS ?res]
  have a: "fst (cache_getRecord ''example.eth.'' 2 ''0xAA'' 1000 ?c1) = Some ''0x0102''"
    and a': "fst (cache_getRecord ''example.eth.'' 2 ''0xAA'' 1000
              (cache_setRecord ''example.eth.'' 2 ''0xAA'' None 1000 ?c0)) = Some ''0x''"
    by (simp_all add: CACHE_TTL_def falsy_def)
  from cap
    record_cache_ttl [of ?c0 1801001 1000 "''example.eth.''" 2 "''0xAA''" None "''0x0102''" ?item ?key
       "''example.eth''" ENS_ADDRESS ?res]
  have b: "lru_peek (snd (cache_getRecord ''example.eth.'' 2 ''0xAA'' 1801001 ?c1)) ?key = Some ?item"
    by (simp add: CACHE_TTL_def)
  from peek
    record_cache_ttl [of ?c1 1801001 1000 "''example.eth.''" 2 "''0xAA''" None "''0x0102''" ?item ?key
       "''example.eth''" ENS_ADDRESS ?res]
  have c: "fst (cache_getRecord ''example.eth.'' 2 ''0xAA'' 1801001 ?c1) = None"
    by (simp add: CACHE_TTL_def)
  from peek room other other'
    record_cache_ttl [of ?c1 1801001 2000 "''example.eth.''" 43 "''0xAA''" None "''0x0102''" ?item ?key
       "''example.eth''" ENS_ADDRESS ?res]
  have d: "lru_peek (cache_setRecord ''example.eth.'' 43 ''0xAA'' None 2000 ?c1) ?key = Some ?item"
    and e: "lru_peek (cache_setResolver ''example.eth'' ENS_ADDRESS ?res 2000 ?c1) ?key = Some ?item"
    and g: "lru_peek (cache_reset ?c1) ?key = None"
    by simp_all
  from cap1 f1
    record_cache_ttl [of ?c1 1801001 2000 "''example.eth.''" 2 "''0xAA''" "Some ''0x0304''"
       "''0x0102''" ?item ?key "''example.eth''" ENS_ADDRESS ?res]
  have f: "lru_peek (cache_setRecord ''example.eth.'' 2 ''0xAA'' (Some ''0x0304'') 2000 ?c1) ?key
             = Some \<lparr>item_time = 2000, item_record = Some ''0x0304'', item_resolver = None\<rparr>"
    by simp
  from a a' b c d e f g show ?thesis by simp
qed

text \<open>
  Where the round trip and the two ways of removal do not hold as such: an empty and a
  missing record are read back as \<open>0x\<close>, a store of capacity zero keeps nothing, and
  \<open>reset\<close> removes an entry that was neither overwritten nor evicted.
\<close>

theorem record_cache_not_always_roundtrip:
  "fst (cache_getRecord ''example.eth.'' 2 ''0xAA'' 1000
         (cache_setRecord ''example.eth.'' 2 ''0xAA'' (Some '''') 1000 (EthereumCache 3000)))
     = Some ''0x'' \<and>
   fst (cache_getRecord ''example.eth.'' 2 ''0xAA'' 1000
         (cache_setRecord ''example.eth.'' 2 ''0xAA'' (Some '''') 1000 (EthereumCache 3000)))
     \<noteq> Some '''' \<and>
   fst (cache_getRecord ''example.eth.'' 2 ''0xAA'' 1000
         (cache_setRecord ''example.eth.'' 2 ''0xAA'' None 1000 (EthereumCache 3000)))
     \<noteq> None \<and>
   fst (cache_getRecord ''example.eth.'' 2 ''0xAA'' 1000
         (cache_setRecord ''example.eth.'' 2 ''0xAA'' (Some ''0x0102'') 1000 (EthereumCache 0)))
     \<noteq> Some ''0x0102'' \<and>
   lru_peek (cache_setRecord ''example.eth.'' 2 ''0xAA'' (Some ''0x0102'') 1000 (EthereumCache 3000))
       (toDnsKey ''example.eth.'' 2 ''0xAA'')
     = Some \<lparr>item_time = 1000, item_record = Some ''0x0102'', item_resolver = None\<rparr> \<and>
   lru_peek (cache_reset
       (cache_setRecord ''example.eth.'' 2 ''0xAA'' (Some ''0x0102'') 1000 (EthereumCache 3000)))
       (toDnsKey ''example.eth.'' 2 ''0xAA'')
     = None"
  by code_simp

section \<open>The boundary of the time to live\<close>

text \<open>
  Claim C10. Both reads compare strictly: for an entry the store holds, \<open>getRecord\<close>
  and \<open>getResolver\<close> return nothing exactly when the clock is greater than the time of
  storing plus the time to live, so an entry whose age equals the time to live is
  returned. After \<open>setRecord\<close> and \<open>setResolver\<close> the read at age \<open>CACHE_TTL\<close>
  returns what was stored, the read one millisecond later nothing.
\<close>

theorem cache_ttl_boundary:
  "(lru_peek c (toDnsKey n t r) = Some item \<longrightarrow>
      fst (cache_getRecord n t r (item_time item + CACHE_TTL) c) = item_record item \<and>
      fst (cache_getRecord n t r now c) =
        (if now > item_time item + CACHE_TTL then None else item_record item)) \<and>
   (lru_peek c (toResolverKey m g) = Some item' \<longrightarrow>
      fst (cache_getResolver m g (item_time item' + CACHE_TTL) c) = item_resolver item' \<and>
      fst (cache_getResolver m g now c) =
        (if now > item_time item' + CACHE_TTL then None else item_resolver item')) \<and>
   (0 < capacity c \<and> bytes \<noteq> [] \<longrightarrow>
      fst (cache_getRecord n t r (stored + CACHE_TTL)
             (cache_setRecord n t r (Some bytes) stored c)) = Some bytes \<and>
      fst (cache_getRecord n t r (stored + CACHE_TTL + 1)
             (cache_setRecord n t r (Some bytes) stored c)) = None \<and>
      fst (cache_getResolver m g (stored + CACHE_TTL)
             (cache_setResolver m g (Some res) stored c)) = Some res \<and>
      fst (cache_getResolver m g (stored + CACHE_TTL + 1)
             (cache_setResolver m g (Some res) stored c)) = None)"
  by (simp add: cache_getRecord_fst cache_getResolver_fst cache_setRecord_peek_same
        cache_setResolver_peek_same)

text \<open>
  The theorem on a record and a resolver stored at time 1000: read at 1801000 and at
  1801001.
\<close>

theorem cache_ttl_boundary_witness:
  "fst (cache_getRecord ''example.eth.'' 2 ''0xAA'' 1801000
         (cache_setRecord ''example.eth.'' 2 ''0xAA'' (Some ''0x0102'') 1000 (EthereumCache 3000)))
     = Some ''0x0102'' \<and>
   fst (cache_getRecord ''example.eth.'' 2 ''0xAA'' 1801001
         (cache_setRecord ''example.eth.'' 2 ''0xAA'' (Some ''0x0102'') 1000 (EthereumCache 3000)))
     = None \<and>
   fst (cache_getResolver ''example.eth'' ENS_ADDRESS 1801000
         (cache_setResolver ''example.eth'' ENS_ADDRESS (Some (Contract ''0xAA'')) 1000 (EthereumCache 3000)))
     = Some (Contract ''0xAA'') \<and>
   fst (cache_getResolver ''example.eth'' ENS_ADDRESS 1801001
         (cache_setResolver ''example.eth'' ENS_ADDRESS (Some (Contract ''0xAA'')) 1000 (EthereumCache 3000)))
     = None"
proof -
  let ?c0 = "EthereumCache 3000"
  let ?c1 = "cache_setRecord ''example.eth.'' 2 ''0xAA'' (Some ''0x0102'') 1000 ?c0"
  let ?c2 = "cache_setResolver ''example.eth'' ENS_ADDRESS (Some (Contract ''0xAA'')) 1000 ?c0"
  let ?item1 = "\<lparr>item_time = 1000, item_record = Some ''0x0102'', item_resolver = None\<rparr>"
  let ?item2 = "\<lparr>item_time = 1000, item_record = None, item_resolver = Some (Contract ''0xAA'')\<rparr>"
  have cap: "0 < capacity ?c0"
    by (simp add: EthereumCache_def lru_new_def)
  have peek1: "lru_peek ?c1 (toDnsKey ''example.eth.'' 2 ''0xAA'') = Some ?item1"
    by code_simp
  have peek2: "lru_peek ?c2 (toResolverKey ''example.eth'' ENS_ADDRESS) = Some ?item2"
    by code_simp
  from peek1 cache_ttl_boundary [of ?c1 "''example.eth.''" 2 "''0xAA''" ?item1 1801001]
  have a: "fst (cache_getRecord ''example.eth.'' 2 ''0xAA'' 1801000 ?c1) = Some ''0x0102''"
    and b: "fst (cache_getRecord ''example.eth.'' 2 ''0xAA'' 1801001 ?c1) = None"
    by (simp_all add: CACHE_TTL_def)
  from peek2 cache_ttl_boundary [of ?c2 _ _ _ _ 1801001 "''example.eth''" ENS_ADDRESS ?item2]
  have c: "fst (cache_getResolver ''example.eth'' ENS_ADDRESS 1801000 ?c2) = Some (Contract ''0xAA'')"
    and d: "fst (cache_getResolver ''example.eth'' ENS_ADDRESS 1801001 ?c2) = None"
    by (simp_all add: CACHE_TTL_def)
  from cap cache_ttl_boundary [of ?c0 "''example.eth.''" 2 "''0xAA''" _ _
          "''example.eth''" ENS_ADDRESS _ "''0x0102''" 1000 "Contract ''0xAA''"]
  have e: "fst (cache_getRecord ''example.eth.'' 2 ''0xAA'' (1000 + CACHE_TTL) ?c1) = Some ''0x0102''"
    by simp
  from a b c d show ?thesis by simp
qed

section \<open>The engine: fetching a record set\<close>

lemma getRRSet_absent: "getRRSet e name type node None s = (Inr None, s)"
  by (simp add: getRRSet_def)

lemma getRRSet_hit:
  assumes "cache_getRecord name type (address r) (clock e (ticks s)) (cache s) = (record, c1)"
    and "\<not> falsy record"
  shows "getRRSet e name type node (Some r) s =
           (Inr (decodeRecord record), s\<lparr>cache := c1, ticks := Suc (ticks s)\<rparr>)"
  using assms by (simp add: getRRSet_def)

lemma getRRSet_miss:
  assumes "cache_getRecord name type (address r) (clock e (ticks s)) (cache s) = (record, c1)"
    and "falsy record"
    and "namehash e (trimFQDN node) = Inr nh"
    and "hashDnsName e name = Inr dh"
    and "resolver_dnsRecord e (address r) nh dh type = Inr fetched"
  shows "getRRSet e name type node (Some r) s =
           (Inr (decodeRecord fetched),
            s\<lparr>cache := cache_setRecord name type (address r) fetched (clock e (Suc (ticks s))) c1,
               calls := calls s @ [ResolverDnsRecord (address r) nh dh type],
               ticks := Suc (Suc (ticks s))\<rparr>)"
  using assms by (simp add: getRRSet_def Let_def)

lemma decodeRecord_cases:
  "decodeRecord None = None"
  "decodeRecord (Some []) = None"
  "decodeRecord (Some ''0x'') = None"
  "t \<noteq> [] \<Longrightarrow> t \<noteq> ''0x'' \<Longrightarrow> decodeRecord (Some t) = Some (hex_decode (drop 2 t))"
  by (simp_all add: decodeRecord_def falsy_def)

lemma resolve_exact_NS_DS:
  assumes "getRRSet e name types_NS node r s = (Inr (Some nsSet), s1)"
    and "getRRSet e name types_DS node r s1 = (Inr (Some dsSet), s2)"
  shows "resolveDnsWithResolver e name types_NS node r s = (Inr (Some (nsSet @ dsSet)), s2)"
  using assms by (simp add: resolveDnsWithResolver_def)

lemma resolve_exact_NS_only:
  assumes "getRRSet e name types_NS node r s = (Inr (Some nsSet), s1)"
    and "getRRSet e name types_DS node r s1 = (Inr None, s2)"
  shows "resolveDnsWithResolver e name types_NS node r s = (Inr (Some nsSet), s2)"
  using assms by (simp add: resolveDnsWithResolver_def)

lemma resolve_exact_other:
  assumes "type \<noteq> types_NS"
    and "getRRSet e name type node r s = (Inr (Some rrSet), s1)"
  shows "resolveDnsWithResolver e name type node r s = (Inr (Some rrSet), s1)"
  using assms by (simp add: resolveDnsWithResolver_def)

lemma resolve_fallback_NS_DS:
  assumes "getRRSet e name type node r s = (Inr None, s1)"
    and "getRRSet e (fqdn node) types_NS node r s1 = (Inr (Some nsSet), s2)"
    and "getRRSet e (fqdn node) types_DS node r s2 = (Inr (Some dsSet), s3)"
  shows "resolveDnsWithResolver e name type node r s = (Inr (Some (nsSet @ dsSet)), s3)"
  using assms by (simp add: resolveDnsWithResolver_def)

lemma resolve_fallback_NS_only:
  assumes "getRRSet e name type node r s = (Inr None, s1)"
    and "getRRSet e (fqdn node) types_NS node r s1 = (Inr (Some nsSet), s2)"
    and "getRRSet e (fqdn node) types_DS node r s2 = (Inr None, s3)"
  shows "resolveDnsWithResolver e name type node r s = (Inr (Some nsSet), s3)"
  using assms by (simp add: resolveDnsWithResolver_def)

lemma resolve_fallback_CNAME:
  assumes "getRRSet e name type node r s = (Inr None, s1)"
    and "getRRSet e (fqdn node) types_NS node r s1 = (Inr None, s2)"
  shows "resolveDnsWithResolver e name type node r s = getRRSet e name types_CNAME node r s2"
  using assms by (simp add: resolveDnsWithResolver_def)

lemma resolve_none_only:
  assumes "fst (resolveDnsWithResolver e name type node r s) = Inr None"
  shows "fst (getRRSet e name type node r s) = Inr None \<and>
         fst (getRRSet e (fqdn node) types_NS node r (snd (getRRSet e name type node r s))) = Inr None \<and>
         fst (getRRSet e name types_CNAME node r
               (snd (getRRSet e (fqdn node) types_NS node r (snd (getRRSet e name type node r s)))))
           = Inr None"
proof -
  obtain r1 s1 where g1: "getRRSet e name type node r s = (r1, s1)"
    by (cases "getRRSet e name type node r s")
  obtain r2 s2 where g2: "getRRSet e (fqdn node) types_NS node r s1 = (r2, s2)"
    by (cases "getRRSet e (fqdn node) types_NS node r s1")
  obtain r3 s3 where g3: "getRRSet e name types_DS node r s1 = (r3, s3)"
    by (cases "getRRSet e name types_DS node r s1")
  obtain r4 s4 where g4: "getRRSet e (fqdn node) types_DS node r s2 = (r4, s4)"
    by (cases "getRRSet e (fqdn node) types_DS node r s2")
  from assms g1 g2 g3 g4 show ?thesis
    by (auto simp: resolveDnsWithResolver_def split: sum.splits option.splits if_splits)
qed

lemma abstract_short_circuit:
  assumes "length (js_split CHR ''.'' ns) \<noteq> 3 \<or> js_split CHR ''.'' ns ! 1 \<noteq> ''_eth'' \<or>
           length (js_split CHR ''.'' ns ! 0) \<noteq> 42"
  shows "resolveDnsFromAbstractEns e name type ns node s = (Inr None, s)"
  using assms by (auto simp: resolveDnsFromAbstractEns_def Let_def)

lemma cache_getResolver_absent:
  "lru_peek c (toResolverKey node reg) = None \<Longrightarrow> cache_getResolver node reg now c = (None, c)"
  by (simp add: cache_getResolver_def lru_get_absent)

lemma getResolver_absent:
  assumes "lru_peek (cache s) (toResolverKey node reg) = None"
    and "namehash e node = Inr h"
    and "registry_resolver e reg h = Inr ZERO_ADDRESS"
  shows "getResolver e node reg s =
           (Inr None, s\<lparr>calls := calls s @ [RegistryResolver reg h], ticks := ticks s + 2\<rparr>)"
  using assms
  by (simp add: getResolver_def getResolverFromRegistry_def getAbstractEnsRegistry_def
        cache_getResolver_absent cache_setResolver_def)

lemma getResolver_miss_zero:
  assumes "fst (cache_getResolver node reg (clock e (ticks s)) (cache s)) = None"
    and "namehash e node = Inr h"
    and "registry_resolver e reg h = Inr ZERO_ADDRESS"
  shows "fst (getResolver e node reg s) = Inr None \<and>
         lru_peek (cache (snd (getResolver e node reg s))) k = lru_peek (cache s) k \<and>
         calls (snd (getResolver e node reg s)) = calls s @ [RegistryResolver reg h]"
proof (cases "cache_getResolver node reg (clock e (ticks s)) (cache s)")
  case (Pair cached c1)
  with assms(1) have cached: "cached = None" by simp
  from Pair have "c1 = snd (cache_getResolver node reg (clock e (ticks s)) (cache s))" by simp
  then have peek: "lru_peek c1 k = lru_peek (cache s) k" by (simp add: cache_getResolver_peek)
  from Pair cached assms(2,3) peek show ?thesis
    by (simp add: getResolver_def getResolverFromRegistry_def getAbstractEnsRegistry_def
          cache_setResolver_def)
qed

lemma map_of_take_None: "map_of xs k = None \<Longrightarrow> map_of (take n xs) k = None"
proof -
  assume "map_of xs k = None"
  then have "k \<notin> fst ` set xs" by (simp add: map_of_eq_None_iff)
  moreover have "set (take n xs) \<subseteq> set xs" by (rule set_take_subset)
  ultimately have "k \<notin> fst ` set (take n xs)" by blast
  then show ?thesis by (simp add: map_of_eq_None_iff)
qed

lemma lru_set_peek_None:
  "k' \<noteq> k \<Longrightarrow> lru_peek c k' = None \<Longrightarrow> lru_peek (lru_set k v c) k' = None"
  by (simp add: lru_set_def lru_peek_def map_of_take_None map_of_lru_touch)

lemma cache_getRecord_absent:
  "lru_peek c (toDnsKey n t a) = None \<Longrightarrow> cache_getRecord n t a now c = (None, c)"
  by (simp add: cache_getRecord_def lru_get_absent)

lemma getRRSet_cold:
  assumes "lru_peek (cache s) (toDnsKey name type (address r)) = None"
    and "namehash e (trimFQDN node) = Inr nh"
    and "hashDnsName e name = Inr dh"
    and "resolver_dnsRecord e (address r) nh dh type = Inr fetched"
  shows "getRRSet e name type node (Some r) s =
           (Inr (decodeRecord fetched),
            s\<lparr>cache := cache_setRecord name type (address r) fetched (clock e (Suc (ticks s))) (cache s),
               calls := calls s @ [ResolverDnsRecord (address r) nh dh type],
               ticks := Suc (Suc (ticks s))\<rparr>)"
  using getRRSet_miss [of "name" "type" r e s None "cache s" node nh dh fetched] assms
  by (simp add: cache_getRecord_absent falsy_def)

lemma NS_DS_keys_differ: "toDnsKey n types_DS a \<noteq> toDnsKey n types_NS a"
  using toDnsKey_inj_length [of a a n types_DS n types_NS]
  by (auto simp: types_DS_def types_NS_def)

lemma resolve_exact_cold:
  assumes k1: "lru_peek (cache s) (toDnsKey name types_NS (address r)) = None"
    and k2: "lru_peek (cache s) (toDnsKey name types_DS (address r)) = None"
    and nh: "namehash e (trimFQDN node) = Inr nh"
    and dh: "hashDnsName e name = Inr dh"
    and ns: "resolver_dnsRecord e (address r) nh dh types_NS = Inr (Some nsText)"
    and ds: "resolver_dnsRecord e (address r) nh dh types_DS = Inr (Some dsText)"
    and nsne: "nsText \<noteq> []" "nsText \<noteq> ''0x''"
    and dsne: "dsText \<noteq> []" "dsText \<noteq> ''0x''"
  shows "fst (resolveDnsWithResolver e name types_NS node (Some r) s) =
           Inr (Some (hex_decode (drop 2 nsText) @ hex_decode (drop 2 dsText)))"
proof -
  define s1 where "s1 = s\<lparr>cache := cache_setRecord name types_NS (address r) (Some nsText)
                                       (clock e (Suc (ticks s))) (cache s),
                           calls := calls s @ [ResolverDnsRecord (address r) nh dh types_NS],
                           ticks := Suc (Suc (ticks s))\<rparr>"
  have g1: "getRRSet e name types_NS node (Some r) s = (Inr (Some (hex_decode (drop 2 nsText))), s1)"
    using getRRSet_cold [OF k1 nh dh ns] nsne by (simp add: s1_def decodeRecord_def falsy_def)
  have "lru_peek (cache s1) (toDnsKey name types_DS (address r)) = None"
    using k2 NS_DS_keys_differ [of "name" "address r"]
    by (simp add: s1_def cache_setRecord_def Let_def lru_set_peek_None)
  from getRRSet_cold [OF this nh dh ds] dsne
  have g2: "fst (getRRSet e name types_DS node (Some r) s1) = Inr (Some (hex_decode (drop 2 dsText)))"
    and "\<exists>s2. getRRSet e name types_DS node (Some r) s1 = (Inr (Some (hex_decode (drop 2 dsText))), s2)"
    by (simp_all add: decodeRecord_def falsy_def)
  then obtain s2 where "getRRSet e name types_DS node (Some r) s1 =
      (Inr (Some (hex_decode (drop 2 dsText))), s2)" by blast
  from resolve_exact_NS_DS [OF g1 this] show ?thesis by simp
qed

section \<open>Record store access\<close>

text \<open>
  Claim C4. Without a resolver \<open>getRRSet\<close> returns nothing and leaves the state as it
  is, so that no remote call is issued. With a resolver and a cached record text that is
  fresh, it returns nothing for the text \<open>0x\<close> and otherwise the bytes decoded from
  the text after its first two characters, again without a remote call. On a cache miss,
  when the hashes and the remote read succeed, it issues that one read and returns
  nothing when the read gave no text, the empty text or \<open>0x\<close>, and otherwise the bytes
  decoded from the fetched text after its first two characters.
\<close>

theorem getRRSet_outcomes:
  "getRRSet e name type node None s = (Inr None, s) \<and>
   (cache_getRecord name type (address r) (clock e (ticks s)) (cache s) = (Some t, c1) \<and> t \<noteq> [] \<longrightarrow>
      fst (getRRSet e name type node (Some r) s) =
        Inr (if t = ''0x'' then None else Some (hex_decode (drop 2 t))) \<and>
      calls (snd (getRRSet e name type node (Some r) s)) = calls s) \<and>
   (falsy (fst (cache_getRecord name type (address r) (clock e (ticks s)) (cache s))) \<and>
    namehash e (trimFQDN node) = Inr nh \<and> hashDnsName e name = Inr dh \<and>
    resolver_dnsRecord e (address r) nh dh type = Inr fetched \<longrightarrow>
      fst (getRRSet e name type node (Some r) s) =
        Inr (if falsy fetched \<or> fetched = Some ''0x'' then None
             else Some (hex_decode (drop 2 (the fetched)))) \<and>
      calls (snd (getRRSet e name type node (Some r) s)) =
        calls s @ [ResolverDnsRecord (address r) nh dh type])"
proof -
  have a: "getRRSet e name type node None s = (Inr None, s)"
    by (rule getRRSet_absent)
  have b: "cache_getRecord name type (address r) (clock e (ticks s)) (cache s) = (Some t, c1) \<and> t \<noteq> [] \<longrightarrow>
      fst (getRRSet e name type node (Some r) s) =
        Inr (if t = ''0x'' then None else Some (hex_decode (drop 2 t))) \<and>
      calls (snd (getRRSet e name type node (Some r) s)) = calls s"
    by (simp add: getRRSet_hit [of "name" "type" r e s "Some t" c1] falsy_def decodeRecord_def)
  have c: "falsy (fst (cache_getRecord name type (address r) (clock e (ticks s)) (cache s))) \<and>
    namehash e (trimFQDN node) = Inr nh \<and> hashDnsName e name = Inr dh \<and>
    resolver_dnsRecord e (address r) nh dh type = Inr fetched \<longrightarrow>
      fst (getRRSet e name type node (Some r) s) =
        Inr (if falsy fetched \<or> fetched = Some ''0x'' then None
             else Some (hex_decode (drop 2 (the fetched)))) \<and>
      calls (snd (getRRSet e name type node (Some r) s)) =
        calls s @ [ResolverDnsRecord (address r) nh dh type]"
  proof (cases "cache_getRecord name type (address r) (clock e (ticks s)) (cache s)")
    case (Pair cached c1')
    then show ?thesis
      by (simp add: getRRSet_miss [of "name" "type" r e s cached c1' node nh dh fetched] decodeRecord_def)
  qed
  from a b c show ?thesis by blast
qed

text \<open>
  The theorem in the example world: no resolver; a first read of the NS record of
  \<open>www.example.eth.\<close>, fetched from the resolver; a name without records; and a second
  read of the NS record, answered by the cache.
\<close>

theorem getRRSet_outcomes_witness:
  "getRRSet example_env ''www.example.eth.'' types_NS ''example.eth'' None Ethereum =
     (Inr None, Ethereum) \<and>
   fst (getRRSet example_env ''www.example.eth.'' types_NS ''example.eth''
          (Some (Contract example_resolver)) Ethereum) = Inr (Some [1, 2]) \<and>
   calls (snd (getRRSet example_env ''www.example.eth.'' types_NS ''example.eth''
          (Some (Contract example_resolver)) Ethereum)) =
     [ResolverDnsRecord example_resolver ''nh:example.eth'' ''dh:www.example.eth.'' types_NS] \<and>
   fst (getRRSet example_env ''nothing.other.eth.'' 1 ''other.eth''
          (Some (Contract example_resolver)) Ethereum) = Inr None \<and>
   fst (getRRSet example_env ''www.example.eth.'' types_NS ''example.eth''
          (Some (Contract example_resolver))
          (snd (getRRSet example_env ''www.example.eth.'' types_NS ''example.eth''
                 (Some (Contract example_resolver)) Ethereum))) = Inr (Some [1, 2]) \<and>
   calls (snd (getRRSet example_env ''www.example.eth.'' types_NS ''example.eth''
          (Some (Contract example_resolver))
          (snd (getRRSet example_env ''www.example.eth.'' types_NS ''example.eth''
                 (Some (Contract example_resolver)) Ethereum)))) =
     [ResolverDnsRecord example_resolver ''nh:example.eth'' ''dh:www.example.eth.'' types_NS]"
proof -
  let ?c = "Contract example_resolver"
  let ?s1 = "snd (getRRSet example_env ''www.example.eth.'' types_NS ''example.eth'' (Some ?c) Ethereum)"
  let ?hit = "cache_getRecord ''www.example.eth.'' types_NS (address ?c)
                (clock example_env (ticks ?s1)) (cache ?s1)"
  have miss1: "falsy (fst (cache_getRecord ''www.example.eth.'' types_NS (address ?c)
                 (clock example_env (ticks Ethereum)) (cache Ethereum)))"
    by code_simp
  have miss2: "falsy (fst (cache_getRecord ''nothing.other.eth.'' 1 (address ?c)
                 (clock example_env (ticks Ethereum)) (cache Ethereum)))"
    by code_simp
  have nh1: "namehash example_env (trimFQDN ''example.eth'') = Inr ''nh:example.eth''"
    by code_simp
  have nh2: "namehash example_env (trimFQDN ''other.eth'') = Inr ''nh:other.eth''"
    by code_simp
  have dh1: "hashDnsName example_env ''www.example.eth.'' = Inr ''dh:www.example.eth.''"
    by code_simp
  have dh2: "hashDnsName example_env ''nothing.other.eth.'' = Inr ''dh:nothing.other.eth.''"
    by code_simp
  have f1: "resolver_dnsRecord example_env (address ?c) ''nh:example.eth'' ''dh:www.example.eth.''
              types_NS = Inr (Some ''0x0102'')"
    by code_simp
  have f2: "resolver_dnsRecord example_env (address ?c) ''nh:other.eth'' ''dh:nothing.other.eth.''
              1 = Inr (Some ''0x'')"
    by code_simp
  have dec: "hex_decode (drop 2 ''0x0102'') = [1, 2]"
    by code_simp
  have adr: "address ?c = example_resolver"
    by simp
  have "fst ?hit = Some ''0x0102''" by code_simp
  then have hit: "?hit = (Some ''0x0102'', snd ?hit)" by (simp add: prod_eq_iff)
  have s1calls: "calls ?s1 =
      [ResolverDnsRecord example_resolver ''nh:example.eth'' ''dh:www.example.eth.'' types_NS]"
    by code_simp
  have a: "getRRSet example_env ''www.example.eth.'' types_NS ''example.eth'' None Ethereum =
     (Inr None, Ethereum)"
    using getRRSet_outcomes [of example_env "''www.example.eth.''" types_NS "''example.eth''" Ethereum]
    by simp
  from miss1 nh1 dh1 f1 dec
    getRRSet_outcomes [of example_env "''www.example.eth.''" types_NS "''example.eth''" Ethereum
        ?c _ _ "''nh:example.eth''" "''dh:www.example.eth.''" "Some ''0x0102''"]
  have b: "fst (getRRSet example_env ''www.example.eth.'' types_NS ''example.eth'' (Some ?c) Ethereum)
             = Inr (Some [1, 2])"
    by (simp add: falsy_def)
  from miss2 nh2 dh2 f2
    getRRSet_outcomes [of example_env "''nothing.other.eth.''" 1 "''other.eth''" Ethereum
        ?c _ _ "''nh:other.eth''" "''dh:nothing.other.eth.''" "Some ''0x''"]
  have c: "fst (getRRSet example_env ''nothing.other.eth.'' 1 ''other.eth'' (Some ?c) Ethereum)
             = Inr None"
    by simp
  from hit dec
    getRRSet_outcomes [of example_env "''www.example.eth.''" types_NS "''example.eth''" ?s1
        ?c "''0x0102''" "snd ?hit"]
  have d: "fst (getRRSet example_env ''www.example.eth.'' types_NS ''example.eth'' (Some ?c) ?s1)
             = Inr (Some [1, 2])"
    and e: "calls (snd (getRRSet example_env ''www.example.eth.'' types_NS ''example.eth'' (Some ?c) ?s1))
             = calls ?s1"
    by simp_all
  from a b c d e s1calls show ?thesis by simp
qed

section \<open>Resolvers that are absent\<close>

text \<open>
  Claim C5. \<open>setResolver\<close> with an absent resolver returns the cache as it is. When the
  cache has no fresh resolver for a node and a registry, and the registry answers with
  the all-zero address, \<open>getResolver\<close> returns the absent resolver, issues the registry
  call, and leaves what the store holds under every key unchanged. When the store holds
  nothing under the key, the whole state is unchanged but for the call issued and the
  clock readings, and the next \<open>getResolver\<close> for the same pair misses again and
  issues the registry call again.
\<close>

theorem absent_resolver_not_cached:
  "cache_setResolver node reg None now c = c \<and>
   (fst (cache_getResolver node reg (clock e (ticks s)) (cache s)) = None \<and>
    namehash e node = Inr h \<and> registry_resolver e reg h = Inr ZERO_ADDRESS \<longrightarrow>
      fst (getResolver e node reg s) = Inr None \<and>
      lru_peek (cache (snd (getResolver e node reg s))) k = lru_peek (cache s) k \<and>
      calls (snd (getResolver e node reg s)) = calls s @ [RegistryResolver reg h]) \<and>
   (lru_peek (cache s) (toResolverKey node reg) = None \<and>
    namehash e node = Inr h \<and> registry_resolver e reg h = Inr ZERO_ADDRESS \<longrightarrow>
      getResolver e node reg s =
        (Inr None, s\<lparr>calls := calls s @ [RegistryResolver reg h], ticks := ticks s + 2\<rparr>) \<and>
      getResolver e node reg (snd (getResolver e node reg s)) =
        (Inr None,
         s\<lparr>calls := calls s @ [RegistryResolver reg h, RegistryResolver reg h],
            ticks := ticks s + 4\<rparr>))"
proof -
  have a: "cache_setResolver node reg None now c = c"
    by (simp add: cache_setResolver_def)
  have b: "fst (cache_getResolver node reg (clock e (ticks s)) (cache s)) = None \<and>
    namehash e node = Inr h \<and> registry_resolver e reg h = Inr ZERO_ADDRESS \<longrightarrow>
      fst (getResolver e node reg s) = Inr None \<and>
      lru_peek (cache (snd (getResolver e node reg s))) k = lru_peek (cache s) k \<and>
      calls (snd (getResolver e node reg s)) = calls s @ [RegistryResolver reg h]"
    using getResolver_miss_zero [of node reg e s h k] by blast
  have c: "lru_peek (cache s) (toResolverKey node reg) = None \<and>
    namehash e node = Inr h \<and> registry_resolver e reg h = Inr ZERO_ADDRESS \<longrightarrow>
      getResolver e node reg s =
        (Inr None, s\<lparr>calls := calls s @ [RegistryResolver reg h], ticks := ticks s + 2\<rparr>) \<and>
      getResolver e node reg (snd (getResolver e node reg s)) =
        (Inr None,
         s\<lparr>calls := calls s @ [RegistryResolver reg h, RegistryResolver reg h],
            ticks := ticks s + 4\<rparr>)"
  proof (intro impI, elim conjE)
    assume k: "lru_peek (cache s) (toResolverKey node reg) = None"
      and nh: "namehash e node = Inr h"
      and z: "registry_resolver e reg h = Inr ZERO_ADDRESS"
    let ?s1 = "s\<lparr>calls := calls s @ [RegistryResolver reg h], ticks := ticks s + 2\<rparr>"
    have one: "getResolver e node reg s = (Inr None, ?s1)"
      by (rule getResolver_absent [OF k nh z])
    have "lru_peek (cache ?s1) (toResolverKey node reg) = None"
      using k by simp
    from getResolver_absent [OF this nh z]
    have two: "getResolver e node reg ?s1 =
        (Inr None,
         s\<lparr>calls := calls s @ [RegistryResolver reg h, RegistryResolver reg h],
            ticks := ticks s + 4\<rparr>)"
      by simp
    from one two show "getResolver e node reg s = (Inr None, ?s1) \<and>
      getResolver e node reg (snd (getResolver e node reg s)) =
        (Inr None,
         s\<lparr>calls := calls s @ [RegistryResolver reg h, RegistryResolver reg h],
            ticks := ticks s + 4\<rparr>)"
      by simp
  qed
  from a b c show ?thesis by blast
qed

text \<open>
  The theorem in the example world, for the node \<open>missing.eth\<close>, which the root
  registry does not know: two lookups in a row, two registry calls, the cache untouched.
\<close>

theorem absent_resolver_not_cached_witness:
  "getResolver example_env ''missing.eth'' ENS_ADDRESS Ethereum =
     (Inr None,
      Ethereum\<lparr>calls := [RegistryResolver ENS_ADDRESS ''nh:missing.eth''], ticks := 2\<rparr>) \<and>
   getResolver example_env ''missing.eth'' ENS_ADDRESS
       (snd (getResolver example_env ''missing.eth'' ENS_ADDRESS Ethereum)) =
     (Inr None,
      Ethereum\<lparr>calls := [RegistryResolver ENS_ADDRESS ''nh:missing.eth'',
                          RegistryResolver ENS_ADDRESS ''nh:missing.eth''],
               ticks := 4\<rparr>) \<and>
   cache (snd (getResolver example_env ''missing.eth'' ENS_ADDRESS Ethereum)) = cache Ethereum"
proof -
  have k: "lru_peek (cache Ethereum) (toResolverKey ''missing.eth'' ENS_ADDRESS) = None"
    by (simp add: Ethereum_def EthereumCache_def lru_new_def lru_peek_def)
  have m: "fst (cache_getResolver ''missing.eth'' ENS_ADDRESS (clock example_env (ticks Ethereum))
                 (cache Ethereum)) = None"
    by (simp add: cache_getResolver_absent [OF k])
  have nh: "namehash example_env ''missing.eth'' = Inr ''nh:missing.eth''"
    by code_simp
  have z: "registry_resolver example_env ENS_ADDRESS ''nh:missing.eth'' = Inr ZERO_ADDRESS"
    by code_simp
  have c0: "calls Ethereum = []" and t0: "ticks Ethereum = 0"
    by (simp_all add: Ethereum_def)
  note th = absent_resolver_not_cached [of "''missing.eth''" ENS_ADDRESS _ _ example_env Ethereum
        "''nh:missing.eth''"]
  from th k nh z
  have one: "getResolver example_env ''missing.eth'' ENS_ADDRESS Ethereum =
      (Inr None,
       Ethereum\<lparr>calls := calls Ethereum @ [RegistryResolver ENS_ADDRESS ''nh:missing.eth''],
                ticks := ticks Ethereum + 2\<rparr>)"
    by blast
  from th k nh z
  have two: "getResolver example_env ''missing.eth'' ENS_ADDRESS
        (snd (getResolver example_env ''missing.eth'' ENS_ADDRESS Ethereum)) =
      (Inr None,
       Ethereum\<lparr>calls := calls Ethereum @ [RegistryResolver ENS_ADDRESS ''nh:missing.eth'',
                                           RegistryResolver ENS_ADDRESS ''nh:missing.eth''],
                ticks := ticks Ethereum + 4\<rparr>)"
    by blast
  from th m nh z
  have "fst (getResolver example_env ''missing.eth'' ENS_ADDRESS Ethereum) = Inr None"
    by blast
  from one have three:
    "cache (snd (getResolver example_env ''missing.eth'' ENS_ADDRESS Ethereum)) = cache Ethereum"
    by simp
  from one c0 t0 have one': "getResolver example_env ''missing.eth'' ENS_ADDRESS Ethereum =
     (Inr None,
      Ethereum\<lparr>calls := [RegistryResolver ENS_ADDRESS ''nh:missing.eth''], ticks := 2\<rparr>)"
    by simp
  from two c0 t0 have two': "getResolver example_env ''missing.eth'' ENS_ADDRESS
       (snd (getResolver example_env ''missing.eth'' ENS_ADDRESS Ethereum)) =
     (Inr None,
      Ethereum\<lparr>calls := [RegistryResolver ENS_ADDRESS ''nh:missing.eth'',
                          RegistryResolver ENS_ADDRESS ''nh:missing.eth''],
               ticks := 4\<rparr>)"
    by simp
  from one' two' three show ?thesis by blast
qed

section \<open>Registry discovery from an NS owner name\<close>

text \<open>
  Claim C8. When the owner name does not have exactly three labels, or its second label
  is not \<open>_eth\<close>, or its first label does not have exactly 42 characters,
  \<open>resolveDnsFromAbstractEns\<close> returns nothing as a regular result, not an error, and
  the state, with the list of remote calls issued, is unchanged.
\<close>

theorem abstract_ens_malformed:
  "length (js_split CHR ''.'' ns) \<noteq> 3 \<or> js_split CHR ''.'' ns ! 1 \<noteq> ''_eth'' \<or>
   length (js_split CHR ''.'' ns ! 0) \<noteq> 42 \<Longrightarrow>
     resolveDnsFromAbstractEns e name type ns node s = (Inr None, s)"
  by (rule abstract_short_circuit)

text \<open>
  The theorem at an owner name of four labels, at one with the middle label \<open>_foo\<close>
  and at one with a first label of 41 characters; a well-formed owner name goes on to
  the registry.
\<close>

theorem abstract_ens_malformed_witness:
  "resolveDnsFromAbstractEns example_env ''www.example.eth.'' 1
       ''0x1111111111111111111111111111111111111111._eth.zone.extra'' None Ethereum =
     (Inr None, Ethereum) \<and>
   resolveDnsFromAbstractEns example_env ''www.example.eth.'' 1
       ''0x1111111111111111111111111111111111111111._foo.zone'' None Ethereum =
     (Inr None, Ethereum) \<and>
   resolveDnsFromAbstractEns example_env ''www.example.eth.'' 1
       ''0x111111111111111111111111111111111111111._eth.zone'' None Ethereum =
     (Inr None, Ethereum) \<and>
   calls (snd (resolveDnsFromAbstractEns example_env ''www.example.eth.'' 1
       ''0x1111111111111111111111111111111111111111._eth.zone'' None Ethereum)) \<noteq> []"
proof -
  have four: "length (js_split CHR ''.''
      ''0x1111111111111111111111111111111111111111._eth.zone.extra'') \<noteq> 3"
    by code_simp
  have foo: "js_split CHR ''.'' ''0x1111111111111111111111111111111111111111._foo.zone'' ! 1
      \<noteq> ''_eth''"
    by code_simp
  have short: "length (js_split CHR ''.''
      ''0x111111111111111111111111111111111111111._eth.zone'' ! 0) \<noteq> 42"
    by code_simp
  have good: "calls (snd (resolveDnsFromAbstractEns example_env ''www.example.eth.'' 1
       ''0x1111111111111111111111111111111111111111._eth.zone'' None Ethereum)) \<noteq> []"
    by code_simp
  from four
    abstract_ens_malformed [of "''0x1111111111111111111111111111111111111111._eth.zone.extra''"
      example_env "''www.example.eth.''" 1 None Ethereum]
  have a: "resolveDnsFromAbstractEns example_env ''www.example.eth.'' 1
       ''0x1111111111111111111111111111111111111111._eth.zone.extra'' None Ethereum =
     (Inr None, Ethereum)"
    by blast
  from foo
    abstract_ens_malformed [of "''0x1111111111111111111111111111111111111111._foo.zone''"
      example_env "''www.example.eth.''" 1 None Ethereum]
  have b: "resolveDnsFromAbstractEns example_env ''www.example.eth.'' 1
       ''0x1111111111111111111111111111111111111111._foo.zone'' None Ethereum =
     (Inr None, Ethereum)"
    by blast
  from short
    abstract_ens_malformed [of "''0x111111111111111111111111111111111111111._eth.zone''"
      example_env "''www.example.eth.''" 1 None Ethereum]
  have c: "resolveDnsFromAbstractEns example_env ''www.example.eth.'' 1
       ''0x111111111111111111111111111111111111111._eth.zone'' None Ethereum =
     (Inr None, Ethereum)"
    by blast
  from a b c good show ?thesis by blast
qed

section \<open>The resolution chain: exact match\<close>

text \<open>
  Claim C1. When fetching the NS record set of a name finds \<open>nsSet\<close> and fetching its
  DS record set then finds \<open>dsSet\<close>, resolving the name for NS returns \<open>nsSet\<close>
  followed by \<open>dsSet\<close>; when the DS fetch finds nothing, it returns \<open>nsSet\<close>
  alone; for a type other than NS an exact match is returned as it is. In terms of the
  resolver: when the cache holds nothing for the NS and DS records of the name and the
  resolver has a text other than \<open>0x\<close> for each, resolving the name for NS returns the
  bytes of the NS text followed by the bytes of the DS text.
\<close>

theorem resolve_exact_match:
  "(getRRSet e name types_NS node r s = (Inr (Some nsSet), s1) \<and>
    getRRSet e name types_DS node r s1 = (Inr (Some dsSet), s2) \<longrightarrow>
      resolveDnsWithResolver e name types_NS node r s = (Inr (Some (nsSet @ dsSet)), s2)) \<and>
   (getRRSet e name types_NS node r s = (Inr (Some nsSet), s1) \<and>
    getRRSet e name types_DS node r s1 = (Inr None, s2) \<longrightarrow>
      resolveDnsWithResolver e name types_NS node r s = (Inr (Some nsSet), s2)) \<and>
   (type \<noteq> types_NS \<and> getRRSet e name type node r s = (Inr (Some rrSet), s1) \<longrightarrow>
      resolveDnsWithResolver e name type node r s = (Inr (Some rrSet), s1)) \<and>
   (lru_peek (cache s) (toDnsKey name types_NS (address c)) = None \<and>
    lru_peek (cache s) (toDnsKey name types_DS (address c)) = None \<and>
    namehash e (trimFQDN node) = Inr nh \<and> hashDnsName e name = Inr dh \<and>
    resolver_dnsRecord e (address c) nh dh types_NS = Inr (Some nsText) \<and>
    resolver_dnsRecord e (address c) nh dh types_DS = Inr (Some dsText) \<and>
    nsText \<noteq> [] \<and> nsText \<noteq> ''0x'' \<and> dsText \<noteq> [] \<and> dsText \<noteq> ''0x'' \<longrightarrow>
      fst (resolveDnsWithResolver e name types_NS node (Some c) s) =
        Inr (Some (hex_decode (drop 2 nsText) @ hex_decode (drop 2 dsText))))"
  using resolve_exact_NS_DS [of e "name" node r s nsSet s1 dsSet s2]
        resolve_exact_NS_only [of e "name" node r s nsSet s1 s2]
        resolve_exact_other [of "type" e "name" node r s rrSet s1]
        resolve_exact_cold [of s "name" c e node nh dh nsText dsText]
  by blast

text \<open>
  The theorem in the example world: \<open>www.example.eth.\<close> has NS and DS records, the
  apex \<open>example.eth.\<close> has an NS record only, and the A record of
  \<open>www.example.eth.\<close> is returned as it is.
\<close>

theorem resolve_exact_match_witness:
  "fst (resolveDnsWithResolver example_env ''www.example.eth.'' types_NS ''example.eth''
          (Some (Contract example_resolver)) Ethereum) = Inr (Some [1, 2, 171, 205]) \<and>
   fst (resolveDnsWithResolver example_env ''example.eth.'' types_NS ''example.eth''
          (Some (Contract example_resolver)) Ethereum) = Inr (Some [3, 4]) \<and>
   fst (resolveDnsWithResolver example_env ''www.example.eth.'' 1 ''example.eth''
          (Some (Contract example_resolver)) Ethereum) = Inr (Some [127, 0, 0, 1])"
proof -
  let ?r = "Some (Contract example_resolver)"
  let ?a = "getRRSet example_env ''www.example.eth.'' types_NS ''example.eth'' ?r Ethereum"
  let ?b = "getRRSet example_env ''www.example.eth.'' types_DS ''example.eth'' ?r (snd ?a)"
  let ?c = "getRRSet example_env ''example.eth.'' types_NS ''example.eth'' ?r Ethereum"
  let ?d = "getRRSet example_env ''example.eth.'' types_DS ''example.eth'' ?r (snd ?c)"
  let ?f = "getRRSet example_env ''www.example.eth.'' 1 ''example.eth'' ?r Ethereum"
  have "fst ?a = Inr (Some [1, 2])" by code_simp
  then have a: "?a = (Inr (Some [1, 2]), snd ?a)" by (simp add: prod_eq_iff)
  have "fst ?b = Inr (Some [171, 205])" by code_simp
  then have b: "?b = (Inr (Some [171, 205]), snd ?b)" by (simp add: prod_eq_iff)
  have "fst ?c = Inr (Some [3, 4])" by code_simp
  then have c: "?c = (Inr (Some [3, 4]), snd ?c)" by (simp add: prod_eq_iff)
  have "fst ?d = Inr None" by code_simp
  then have d: "?d = (Inr None, snd ?d)" by (simp add: prod_eq_iff)
  have ff: "fst ?f = Inr (Some [127, 0, 0, 1])" by code_simp
  then have f: "?f = (Inr (Some [127, 0, 0, 1]), snd ?f)" by (simp add: prod_eq_iff)
  have ne: "(1::nat) \<noteq> types_NS" by (simp add: types_NS_def)
  from a b
    resolve_exact_match [of example_env "''www.example.eth.''" "''example.eth''" ?r Ethereum
        "[1, 2]" "snd ?a" "[171, 205]" "snd ?b"]
  have r1: "fst (resolveDnsWithResolver example_env ''www.example.eth.'' types_NS ''example.eth''
          ?r Ethereum) = Inr (Some [1, 2, 171, 205])"
    by simp
  from c d
    resolve_exact_match [of example_env "''example.eth.''" "''example.eth''" ?r Ethereum
        "[3, 4]" "snd ?c" _ "snd ?d"]
  have r2: "fst (resolveDnsWithResolver example_env ''example.eth.'' types_NS ''example.eth''
          ?r Ethereum) = Inr (Some [3, 4])"
    by simp
  from f ff ne
    resolve_exact_match [of example_env "''www.example.eth.''" "''example.eth''" ?r Ethereum
        _ "snd ?f" _ _ 1 "[127, 0, 0, 1]"]
  have r3: "fst (resolveDnsWithResolver example_env ''www.example.eth.'' 1 ''example.eth''
          ?r Ethereum) = Inr (Some [127, 0, 0, 1])"
    by simp
  have k1: "lru_peek (cache Ethereum)
              (toDnsKey ''www.example.eth.'' types_NS (address (Contract example_resolver))) = None"
    and k2: "lru_peek (cache Ethereum)
              (toDnsKey ''www.example.eth.'' types_DS (address (Contract example_resolver))) = None"
    by (simp_all add: Ethereum_def EthereumCache_def lru_new_def lru_peek_def)
  have nh: "namehash example_env (trimFQDN ''example.eth'') = Inr ''nh:example.eth''"
    by code_simp
  have dh: "hashDnsName example_env ''www.example.eth.'' = Inr ''dh:www.example.eth.''"
    by code_simp
  have ns: "resolver_dnsRecord example_env (address (Contract example_resolver))
              ''nh:example.eth'' ''dh:www.example.eth.'' types_NS = Inr (Some ''0x0102'')"
    by code_simp
  have ds: "resolver_dnsRecord example_env (address (Contract example_resolver))
              ''nh:example.eth'' ''dh:www.example.eth.'' types_DS = Inr (Some ''0xabcd'')"
    by code_simp
  from k1 k2 nh dh ns ds
    resolve_exact_match [of example_env "''www.example.eth.''" "''example.eth''" _ Ethereum
        _ _ _ _ _ _ "Contract example_resolver" "''nh:example.eth''" "''dh:www.example.eth.''"
        "''0x0102''" "''0xabcd''"]
  have r4: "fst (resolveDnsWithResolver example_env ''www.example.eth.'' types_NS ''example.eth''
          ?r Ethereum) = Inr (Some (hex_decode (drop 2 ''0x0102'') @ hex_decode (drop 2 ''0xabcd'')))"
    by simp
  from r1 r2 r3 r4 show ?thesis by simp
qed

section \<open>The resolution chain: delegation fallback\<close>

text \<open>
  Claim C2. When fetching the record set of the query name and type finds nothing, the
  chain fetches the NS record set at \<open>fqdn node\<close>, the apex, not at the query name;
  when that finds \<open>nsSet\<close> it fetches the DS record set at \<open>fqdn node\<close> and returns
  \<open>nsSet\<close> followed by the DS bytes when there are some, and \<open>nsSet\<close> alone
  otherwise.
\<close>

theorem resolve_delegation_fallback:
  "(getRRSet e name type node r s = (Inr None, s1) \<and>
    getRRSet e (fqdn node) types_NS node r s1 = (Inr (Some nsSet), s2) \<and>
    getRRSet e (fqdn node) types_DS node r s2 = (Inr (Some dsSet), s3) \<longrightarrow>
      resolveDnsWithResolver e name type node r s = (Inr (Some (nsSet @ dsSet)), s3)) \<and>
   (getRRSet e name type node r s = (Inr None, s1) \<and>
    getRRSet e (fqdn node) types_NS node r s1 = (Inr (Some nsSet), s2) \<and>
    getRRSet e (fqdn node) types_DS node r s2 = (Inr None, s3) \<longrightarrow>
      resolveDnsWithResolver e name type node r s = (Inr (Some nsSet), s3))"
  using resolve_fallback_NS_DS [of e "name" "type" node r s s1 nsSet s2 dsSet s3]
        resolve_fallback_NS_only [of e "name" "type" node r s s1 nsSet s2 s3]
  by blast

text \<open>
  The theorem in the example world: an A query for \<open>mail.example.eth.\<close> returns the
  NS record of the apex \<open>example.eth.\<close>, which has no DS record; an A query for
  \<open>www.secure.eth.\<close> returns the NS record of the apex followed by its DS record.
\<close>

theorem resolve_delegation_fallback_witness:
  "fqdn ''example.eth'' = ''example.eth.'' \<and>
   fst (resolveDnsWithResolver example_env ''mail.example.eth.'' 1 ''example.eth''
          (Some (Contract example_resolver)) Ethereum) = Inr (Some [3, 4]) \<and>
   fst (resolveDnsWithResolver example_env ''www.secure.eth.'' 1 ''secure.eth''
          (Some (Contract example_resolver)) Ethereum) = Inr (Some [6, 7, 8, 9])"
proof -
  let ?r = "Some (Contract example_resolver)"
  let ?a = "getRRSet example_env ''mail.example.eth.'' 1 ''example.eth'' ?r Ethereum"
  let ?b = "getRRSet example_env (fqdn ''example.eth'') types_NS ''example.eth'' ?r (snd ?a)"
  let ?c = "getRRSet example_env (fqdn ''example.eth'') types_DS ''example.eth'' ?r (snd ?b)"
  let ?f = "getRRSet example_env ''www.secure.eth.'' 1 ''secure.eth'' ?r Ethereum"
  let ?g = "getRRSet example_env (fqdn ''secure.eth'') types_NS ''secure.eth'' ?r (snd ?f)"
  let ?h = "getRRSet example_env (fqdn ''secure.eth'') types_DS ''secure.eth'' ?r (snd ?g)"
  have q: "fqdn ''example.eth'' = ''example.eth.''" by code_simp
  have "fst ?a = Inr None" by code_simp
  then have a: "?a = (Inr None, snd ?a)" by (simp add: prod_eq_iff)
  have "fst ?b = Inr (Some [3, 4])" by code_simp
  then have b: "?b = (Inr (Some [3, 4]), snd ?b)" by (simp add: prod_eq_iff)
  have "fst ?c = Inr None" by code_simp
  then have c: "?c = (Inr None, snd ?c)" by (simp add: prod_eq_iff)
  have "fst ?f = Inr None" by code_simp
  then have f: "?f = (Inr None, snd ?f)" by (simp add: prod_eq_iff)
  have "fst ?g = Inr (Some [6, 7])" by code_simp
  then have g: "?g = (Inr (Some [6, 7]), snd ?g)" by (simp add: prod_eq_iff)
  have "fst ?h = Inr (Some [8, 9])" by code_simp
  then have h: "?h = (Inr (Some [8, 9]), snd ?h)" by (simp add: prod_eq_iff)
  from a b c
    resolve_delegation_fallback [of example_env "''mail.example.eth.''" 1 "''example.eth''" ?r
        Ethereum "snd ?a" "[3, 4]" "snd ?b" _ "snd ?c"]
  have r1: "fst (resolveDnsWithResolver example_env ''mail.example.eth.'' 1 ''example.eth''
          ?r Ethereum) = Inr (Some [3, 4])"
    by simp
  from f g h
    resolve_delegation_fallback [of example_env "''www.secure.eth.''" 1 "''secure.eth''" ?r
        Ethereum "snd ?f" "[6, 7]" "snd ?g" "[8, 9]" "snd ?h"]
  have r2: "fst (resolveDnsWithResolver example_env ''www.secure.eth.'' 1 ''secure.eth''
          ?r Ethereum) = Inr (Some [6, 7, 8, 9])"
    by simp
  from q r1 r2 show ?thesis by simp
qed

section \<open>The resolution chain: alias fallback\<close>

text \<open>
  Claim C3. When neither the exact fetch nor the NS fetch at the apex finds anything,
  the chain returns what fetching the CNAME record set of the query name returns,
  result and state. And when the chain returns nothing, each of the three fetches
  (exact, NS at the apex, CNAME) has returned nothing.
\<close>

theorem resolve_alias_fallback:
  "(getRRSet e name type node r s = (Inr None, s1) \<and>
    getRRSet e (fqdn node) types_NS node r s1 = (Inr None, s2) \<longrightarrow>
      resolveDnsWithResolver e name type node r s = getRRSet e name types_CNAME node r s2) \<and>
   (fst (resolveDnsWithResolver e name type node r s) = Inr None \<longrightarrow>
      fst (getRRSet e name type node r s) = Inr None \<and>
      fst (getRRSet e (fqdn node) types_NS node r (snd (getRRSet e name type node r s))) = Inr None \<and>
      fst (getRRSet e name types_CNAME node r
             (snd (getRRSet e (fqdn node) types_NS node r (snd (getRRSet e name type node r s)))))
        = Inr None)"
  using resolve_fallback_CNAME [of e "name" "type" node r s s1 s2]
        resolve_none_only [of e "name" "type" node r s]
  by blast

text \<open>
  The theorem in the example world: \<open>alias.other.eth.\<close> has a CNAME record only,
  \<open>nothing.other.eth.\<close> has no record at all.
\<close>

theorem resolve_alias_fallback_witness:
  "fst (resolveDnsWithResolver example_env ''alias.other.eth.'' 1 ''other.eth''
          (Some (Contract example_resolver)) Ethereum) = Inr (Some [5]) \<and>
   fst (resolveDnsWithResolver example_env ''nothing.other.eth.'' 1 ''other.eth''
          (Some (Contract example_resolver)) Ethereum) = Inr None \<and>
   fst (getRRSet example_env ''nothing.other.eth.'' types_CNAME ''other.eth''
          (Some (Contract example_resolver))
          (snd (getRRSet example_env (fqdn ''other.eth'') types_NS ''other.eth''
                 (Some (Contract example_resolver))
                 (snd (getRRSet example_env ''nothing.other.eth.'' 1 ''other.eth''
                        (Some (Contract example_resolver)) Ethereum))))) = Inr None"
proof -
  let ?r = "Some (Contract example_resolver)"
  let ?a = "getRRSet example_env ''alias.other.eth.'' 1 ''other.eth'' ?r Ethereum"
  let ?b = "getRRSet example_env (fqdn ''other.eth'') types_NS ''other.eth'' ?r (snd ?a)"
  let ?c = "getRRSet example_env ''alias.other.eth.'' types_CNAME ''other.eth'' ?r (snd ?b)"
  have "fst ?a = Inr None" by code_simp
  then have a: "?a = (Inr None, snd ?a)" by (simp add: prod_eq_iff)
  have "fst ?b = Inr None" by code_simp
  then have b: "?b = (Inr None, snd ?b)" by (simp add: prod_eq_iff)
  have c: "fst ?c = Inr (Some [5])" by code_simp
  from a b c
    resolve_alias_fallback [of example_env "''alias.other.eth.''" 1 "''other.eth''" ?r
        Ethereum "snd ?a" "snd ?b"]
  have r1: "fst (resolveDnsWithResolver example_env ''alias.other.eth.'' 1 ''other.eth''
          ?r Ethereum) = Inr (Some [5])"
    by simp
  have r2: "fst (resolveDnsWithResolver example_env ''nothing.other.eth.'' 1 ''other.eth''
          ?r Ethereum) = Inr None"
    by code_simp
  from r2
    resolve_alias_fallback [of example_env "''nothing.other.eth.''" 1 "''other.eth''" ?r Ethereum]
  have r3: "fst (getRRSet example_env ''nothing.other.eth.'' types_CNAME ''other.eth'' ?r
          (snd (getRRSet example_env (fqdn ''other.eth'') types_NS ''other.eth'' ?r
                 (snd (getRRSet example_env ''nothing.other.eth.'' 1 ''other.eth''
                        ?r Ethereum))))) = Inr None"
    by simp
  from r1 r2 r3 show ?thesis by simp
qed

end
